theory Spec2Isabelle
  imports Complex_Main "HOL-Library.Word"
begin

unbundle bit_operations_syntax

section \<open>Data model\<close>

text \<open>
  The post-op chain of \<^verbatim>\<open>post_ops_t\<close>: an ordered vector \<^verbatim>\<open>entry_\<close> of tagged
  entries. The declarations live in headers outside the translated sources; the
  datatypes below carry exactly the members the translated functions read.
\<close>

text \<open>
  A 32-bit float, as far as the sources use it: it is stored, passed on and compared
  with \<^verbatim>\<open>!=\<close>. IEEE comparison: a NaN differs from everything, itself included; the
  two zeros are one value.
\<close>

datatype f32 = F_nan | F_inf bool | F_fin real

definition f32_ne :: "f32 \<Rightarrow> f32 \<Rightarrow> bool" where
  "f32_ne a b = (a = F_nan \<or> b = F_nan \<or> a \<noteq> b)"

datatype cpu_isa_t =
    sse41 | avx | avx2 | avx2_vnni_2
  | avx512_core | avx512_core_bf16 | avx512_core_fp16
  | isa_other nat

datatype primitive_kind_t =
    pk_sum | pk_convolution | pk_eltwise | pk_binary | pk_prelu
  | pk_depthwise | pk_quantization

datatype alg_kind_t =
    quantization_quantize_dequantize
  | quantization_quantize
  | depthwise_scale_shift
  | depthwise_prelu
  | alg_kind_other nat

datatype data_type_t = dnnl_f32 | dnnl_s32 | dnnl_s8 | dnnl_u8 | dnnl_bf16 | dnnl_f16

text \<open>
  \<^verbatim>\<open>entry_t\<close> is a kind tag with a union; each constructor is one tag with the members
  of its union arm that the sources read. \<open>binary_e\<close> and \<open>prelu_e\<close> carry an opaque
  descriptor of operand 1.
\<close>

datatype entry_t =
    sum_e (sum_scale: f32) (sum_zero_point: int)
  | convolution_e
  | eltwise_e (eltwise_alg: alg_kind_t) (eltwise_alpha: f32) (eltwise_beta: f32)
  | binary_e (binary_alg: alg_kind_t) (src1_desc: nat)
  | prelu_e (prelu_mask: int)
  | depthwise_e (depthwise_alg: alg_kind_t)
  | quantization_e (quantization_alg: alg_kind_t)

type_synonym post_ops_t = "entry_t list"

fun kind :: "entry_t \<Rightarrow> primitive_kind_t" where
  "kind (sum_e _ _) = pk_sum"
| "kind convolution_e = pk_convolution"
| "kind (eltwise_e _ _ _) = pk_eltwise"
| "kind (binary_e _ _) = pk_binary"
| "kind (prelu_e _) = pk_prelu"
| "kind (depthwise_e _) = pk_depthwise"
| "kind (quantization_e _) = pk_quantization"

definition is_sum :: "entry_t \<Rightarrow> bool" where
  "is_sum e = (kind e = pk_sum)"

definition is_eltwise :: "entry_t \<Rightarrow> bool" where
  "is_eltwise e = (kind e = pk_eltwise)"

definition is_binary :: "entry_t \<Rightarrow> bool" where
  "is_binary e = (kind e = pk_binary)"

definition is_prelu :: "entry_t \<Rightarrow> bool" where
  "is_prelu e = (kind e = pk_prelu)"

definition is_like_binary :: "entry_t \<Rightarrow> bool" where
  "is_like_binary e = (is_binary e \<or> is_prelu e)"

definition is_depthwise :: "entry_t \<Rightarrow> bool" where
  "is_depthwise e = (kind e = pk_depthwise)"

definition is_quantization :: "entry_t \<Rightarrow> bool" where
  "is_quantization e = (kind e = pk_quantization)"

section \<open>\<^verbatim>\<open>aux_vec_count\<close>\<close>

text \<open>
  \<^verbatim>\<open>is_superset\<close> and \<^verbatim>\<open>jit_uni_eltwise_injector<isa>::aux_vecs_count\<close> are declared
  outside the translated sources; both are parameters. The macro
  \<^verbatim>\<open>CASE_ELTWISE_SUPERSET\<close> is expanded three times in the loop body; \<^verbatim>\<open>continue\<close>
  leaves the body, which the nested conditional does as well.
\<close>

type_synonym is_superset_t = "cpu_isa_t \<Rightarrow> cpu_isa_t \<Rightarrow> bool"
type_synonym aux_vecs_count_t = "cpu_isa_t \<Rightarrow> alg_kind_t \<Rightarrow> bool \<Rightarrow> f32 \<Rightarrow> nat"

definition aux_vec_count_body ::
  "is_superset_t \<Rightarrow> aux_vecs_count_t \<Rightarrow> cpu_isa_t \<Rightarrow> bool \<Rightarrow> nat \<Rightarrow> entry_t \<Rightarrow> nat" where
  "aux_vec_count_body is_superset aux_vecs_count isa is_fwd res post_op =
     (if is_eltwise post_op then
        if is_superset isa avx512_core then
          max res (aux_vecs_count avx512_core (eltwise_alg post_op) is_fwd (eltwise_alpha post_op))
        else if is_superset isa avx2 then
          max res (aux_vecs_count avx2 (eltwise_alg post_op) is_fwd (eltwise_alpha post_op))
        else if is_superset isa sse41 then
          max res (aux_vecs_count sse41 (eltwise_alg post_op) is_fwd (eltwise_alpha post_op))
        else res
      else res)"

definition aux_vec_count ::
  "is_superset_t \<Rightarrow> aux_vecs_count_t \<Rightarrow> post_ops_t \<Rightarrow> cpu_isa_t \<Rightarrow> bool \<Rightarrow> nat" where
  "aux_vec_count is_superset aux_vecs_count post_ops isa is_fwd =
     foldl (aux_vec_count_body is_superset aux_vecs_count isa is_fwd) 0 post_ops"

text \<open>
  The reading of the result: the highest of the three tiers that \<open>isa\<close> includes, in
  the order avx512_core, avx2, sse41, and the count of one eltwise entry at that tier.
\<close>

definition highest_tier :: "is_superset_t \<Rightarrow> cpu_isa_t \<Rightarrow> cpu_isa_t option" where
  "highest_tier is_superset isa =
     List.find (is_superset isa) [avx512_core, avx2, sse41]"

definition entry_aux_vecs ::
  "is_superset_t \<Rightarrow> aux_vecs_count_t \<Rightarrow> cpu_isa_t \<Rightarrow> bool \<Rightarrow> entry_t \<Rightarrow> nat" where
  "entry_aux_vecs is_superset aux_vecs_count isa is_fwd e =
     (case highest_tier is_superset isa of
        None \<Rightarrow> 0
      | Some t \<Rightarrow> aux_vecs_count t (eltwise_alg e) is_fwd (eltwise_alpha e))"

definition max_list :: "nat list \<Rightarrow> nat" where
  "max_list ns = foldr max ns 0"

section \<open>The orchestrating injector and its construction\<close>

text \<open>
  Failures of the translated functions, as values: a failed \<^verbatim>\<open>assert\<close> (with its
  message), \<^verbatim>\<open>std::out_of_range\<close> thrown by \<^verbatim>\<open>map::at\<close>, and a read through a null
  pointer or past the end of a vector.
\<close>

datatype error = Assertion_failed string | Out_of_range | Invalid_access

text \<open>
  The static parameter blocks, with the members the constructor reads. Registers and
  mask registers are their indices.
\<close>

record eltwise_static_params_t =
  esp_save_state :: bool
  esp_p_table :: nat
  esp_k_mask :: nat
  esp_is_fwd :: bool
  esp_use_dst :: bool
  esp_preserve_vmm :: bool
  esp_preserve_p_table :: bool

record rhs_arg_static_params_t =
  rhs_tail_size :: nat
  rhs_tail_opmask :: nat

record binary_static_params_t =
  bsp_param1 :: nat
  rhs_arg_static_params :: rhs_arg_static_params_t

record quantization_static_params_t =
  qsp_vmm_d_weights_idx :: nat
  qsp_vmm_d_bias_idx :: nat
  qsp_reg_d_weights :: nat
  qsp_reg_d_bias :: nat

text \<open>
  The sub-generators are classes outside the translated sources; one value per
  constructed object, holding the constructor's arguments.
\<close>

datatype eltwise_injector =
  jit_uni_eltwise_injector cpu_isa_t entry_t data_type_t eltwise_static_params_t

datatype binary_injector =
  jit_uni_binary_injector_t cpu_isa_t binary_static_params_t

datatype depthwise_injector =
  jit_uni_depthwise_injector_f32 cpu_isa_t entry_t

datatype quantization_injector =
  jit_uni_quantization_injector_f32 cpu_isa_t entry_t quantization_static_params_t

text \<open>A registered callback (\<^verbatim>\<open>std::function<void()>\<close>) is known by an identifier.\<close>

type_synonym callback = nat

text \<open>
  A member \<^verbatim>\<open>name_\<close> of the class is the field \<open>m_name\<close> here.
  \<^verbatim>\<open>alg_to_eltwise_injector_\<close> is a \<^verbatim>\<open>std::map\<close> from \<^verbatim>\<open>int\<close>; \<^verbatim>\<open>emplace\<close> adds a
  pair only when the key is new. The member \<^verbatim>\<open>post_ops_pointers_count\<close> is declared
  in the class header.
\<close>

record jit_uni_postops_injector_t =
  inj_isa :: cpu_isa_t
  m_post_ops :: post_ops_t
  m_alg_to_eltwise_injector :: "(nat \<times> eltwise_injector) list"
  m_binary_injector :: "binary_injector option"
  depthwise_injectors :: "depthwise_injector list"
  quantization_injectors :: "quantization_injector list"
  m_lambda_jit_injectors :: "primitive_kind_t \<rightharpoonup> callback"
  post_ops_pointers_count :: nat

definition emplace :: "'k \<Rightarrow> 'v \<Rightarrow> ('k \<times> 'v) list \<Rightarrow> ('k \<times> 'v) list" where
  "emplace k v m = (if k \<in> fst ` set m then m else m @ [(k, v)])"

text \<open>
  Modelled from the spec: the initial value of \<^verbatim>\<open>post_ops_pointers_count\<close>, whose
  declaration (with its initialiser) is in the class header; the count of reserved
  pointer slots starts at zero.
\<close>

definition init_injector ::
  "cpu_isa_t \<Rightarrow> post_ops_t \<Rightarrow> (primitive_kind_t \<rightharpoonup> callback) \<Rightarrow> jit_uni_postops_injector_t" where
  "init_injector isa post_ops lambda_jit_injectors =
     \<lparr> inj_isa = isa, m_post_ops = post_ops, m_alg_to_eltwise_injector = [],
       m_binary_injector = None, depthwise_injectors = [], quantization_injectors = [],
       m_lambda_jit_injectors = lambda_jit_injectors, post_ops_pointers_count = 0 \<rparr>"

text \<open>
  The loop of the constructor with six parameters. Its state is the object under
  construction and the two locals \<^verbatim>\<open>is_like_binary\<close> and \<^verbatim>\<open>is_eltwise\<close>.
\<close>

record ctor_state =
  cs_inj :: jit_uni_postops_injector_t
  cs_is_like_binary :: bool
  cs_is_eltwise :: bool

definition ctor_body ::
  "cpu_isa_t \<Rightarrow> eltwise_static_params_t \<Rightarrow> quantization_static_params_t \<Rightarrow>
   ctor_state \<Rightarrow> nat \<Rightarrow> entry_t \<Rightarrow> ctor_state" where
  "ctor_body isa esp qsp st i post_op =
     (let obj = cs_inj st in
      if is_eltwise post_op then
        st \<lparr> cs_is_eltwise := True,
             cs_inj := obj \<lparr> m_alg_to_eltwise_injector :=
               emplace i (jit_uni_eltwise_injector isa post_op dnnl_f32 esp)
                 (m_alg_to_eltwise_injector obj) \<rparr> \<rparr>
      else if is_like_binary post_op then
        st \<lparr> cs_is_like_binary := True \<rparr>
      else if is_depthwise post_op then
        st \<lparr> cs_inj := obj \<lparr> depthwise_injectors :=
               depthwise_injectors obj @ [jit_uni_depthwise_injector_f32 isa post_op] \<rparr> \<rparr>
      else if is_quantization post_op then
        st \<lparr> cs_inj := obj \<lparr> quantization_injectors :=
               quantization_injectors obj @ [jit_uni_quantization_injector_f32 isa post_op qsp] \<rparr> \<rparr>
      else st)"

text \<open>
  \<open>ctor_steps \<dots> st n\<close> is the state after the iterations \<open>i = 0, \<dots>, n - 1\<close> of
  \<^verbatim>\<open>for (int i = 0; i < post_ops_.len(); i++)\<close>; the loop runs them all.
\<close>

primrec ctor_steps ::
  "cpu_isa_t \<Rightarrow> eltwise_static_params_t \<Rightarrow> quantization_static_params_t \<Rightarrow>
   post_ops_t \<Rightarrow> ctor_state \<Rightarrow> nat \<Rightarrow> ctor_state" where
  "ctor_steps isa esp qsp post_ops st 0 = st"
| "ctor_steps isa esp qsp post_ops st (Suc i) =
     ctor_body isa esp qsp (ctor_steps isa esp qsp post_ops st i) i (post_ops ! i)"

definition ctor_loop ::
  "cpu_isa_t \<Rightarrow> eltwise_static_params_t \<Rightarrow> quantization_static_params_t \<Rightarrow>
   ctor_state \<Rightarrow> post_ops_t \<Rightarrow> ctor_state" where
  "ctor_loop isa esp qsp st post_ops = ctor_steps isa esp qsp post_ops st (length post_ops)"

text \<open>
  The constructor. \<open>ndebug\<close> says whether the translation unit is compiled with
  \<^verbatim>\<open>NDEBUG\<close>, which removes every \<^verbatim>\<open>assert\<close>.
\<close>

definition new_jit_uni_postops_injector_t ::
  "bool \<Rightarrow> is_superset_t \<Rightarrow> cpu_isa_t \<Rightarrow> post_ops_t \<Rightarrow> binary_static_params_t \<Rightarrow>
   eltwise_static_params_t \<Rightarrow> quantization_static_params_t \<Rightarrow>
   (primitive_kind_t \<rightharpoonup> callback) \<Rightarrow> error + jit_uni_postops_injector_t" where
  "new_jit_uni_postops_injector_t ndebug is_superset isa post_ops binary_static_params
       eltwise_static_params quantization_static_params lambda_jit_injectors =
     (let st = ctor_loop isa eltwise_static_params quantization_static_params
                 \<lparr> cs_inj = init_injector isa post_ops lambda_jit_injectors,
                   cs_is_like_binary = False, cs_is_eltwise = False \<rparr> post_ops
      in
      if \<not> ndebug \<and> is_superset isa avx512_core \<and> cs_is_eltwise st \<and> cs_is_like_binary st
          \<and> rhs_tail_size (rhs_arg_static_params binary_static_params) \<noteq> 0
          \<and> \<not> (esp_k_mask eltwise_static_params
                 \<noteq> rhs_tail_opmask (rhs_arg_static_params binary_static_params))
      then Inl (Assertion_failed ''Binary and prelu tail opmask should be different than eltwise injector opmask.'')
      else if cs_is_like_binary st then
        Inr ((cs_inj st) \<lparr> m_binary_injector :=
               Some (jit_uni_binary_injector_t isa binary_static_params) \<rparr>)
      else Inr (cs_inj st))"

text \<open>
  The default-constructed parameter blocks of the delegating constructors. Their
  member initialisers are in headers outside the translated sources, so the blocks are
  parameters of the delegating constructors' model.
\<close>

definition new_injector_bsp_esp ::
  "bool \<Rightarrow> is_superset_t \<Rightarrow> quantization_static_params_t \<Rightarrow> cpu_isa_t \<Rightarrow> post_ops_t \<Rightarrow>
   binary_static_params_t \<Rightarrow> eltwise_static_params_t \<Rightarrow> error + jit_uni_postops_injector_t" where
  "new_injector_bsp_esp ndebug is_superset default_qsp isa post_ops bsp esp =
     new_jit_uni_postops_injector_t ndebug is_superset isa post_ops bsp esp default_qsp Map.empty"

text \<open>The number of sub-generator objects the injector owns.\<close>

definition sub_generator_count :: "jit_uni_postops_injector_t \<Rightarrow> nat" where
  "sub_generator_count obj =
     length (m_alg_to_eltwise_injector obj)
     + (case m_binary_injector obj of None \<Rightarrow> 0 | Some b \<Rightarrow> 1)
     + length (depthwise_injectors obj)
     + length (quantization_injectors obj)"

section \<open>The validity checker \<^verbatim>\<open>post_ops_ok\<close>\<close>

datatype post_op_type =
  sum_type | eltwise_type | binary_type | prelu_type | depthwise_type | quantization_type

datatype format_kind_t =
  dnnl_format_kind_undef | dnnl_format_kind_any | dnnl_blocked | format_kind_other nat

record memory_desc_wrapper =
  format_kind :: format_kind_t
  md_id :: nat

type_synonym bcast_set_t = "nat list"

record post_ops_ok_args_t =
  arg_isa :: cpu_isa_t
  accepted_post_op_types :: "post_op_type list"
  arg_post_ops :: post_ops_t
  dst_d :: "memory_desc_wrapper option"
  sum_at_pos_0_only :: bool
  sum_requires_scale_one :: bool
  sum_requires_zp_zero :: bool
  sum_requires_same_params :: bool
  enabled_bcast_strategy :: bcast_set_t

text \<open>
  Modelled from the spec: \<^verbatim>\<open>post_ops_t::find\<close>, defined in a header outside the
  translated sources. It gives the index of the first entry of the kind, and -1 when
  the chain has none ("if the chain contains any sum entries, record the first one's
  scale/zero-point as canonical").
\<close>

fun find_from :: "primitive_kind_t \<Rightarrow> int \<Rightarrow> post_ops_t \<Rightarrow> int" where
  "find_from k idx [] = -1"
| "find_from k idx (e # es) = (if kind e = k then idx else find_from k (idx + 1) es)"

definition find_kind :: "post_ops_t \<Rightarrow> primitive_kind_t \<Rightarrow> int" where
  "find_kind post_ops k = find_from k 0 post_ops"

text \<open>
  The support predicates of the eltwise and binary sub-generators and
  \<^verbatim>\<open>get_src1_desc\<close> are outside the translated sources: parameters.
\<close>

type_synonym eltwise_is_supported_t = "cpu_isa_t \<Rightarrow> alg_kind_t \<Rightarrow> data_type_t \<Rightarrow> bool"
type_synonym get_src1_desc_t = "entry_t \<Rightarrow> memory_desc_wrapper \<Rightarrow> nat"
type_synonym binary_is_supported_t =
  "cpu_isa_t \<Rightarrow> nat \<Rightarrow> memory_desc_wrapper \<Rightarrow> bcast_set_t \<Rightarrow> bool"

definition canonical_sum_scale :: "post_ops_t \<Rightarrow> f32" where
  "canonical_sum_scale post_ops =
     (let sum_idx = find_kind post_ops pk_sum; with_sum = (sum_idx \<noteq> -1) in
      if with_sum then sum_scale (post_ops ! nat sum_idx) else F_fin 0)"

definition canonical_sum_zero_point :: "post_ops_t \<Rightarrow> int" where
  "canonical_sum_zero_point post_ops =
     (let sum_idx = find_kind post_ops pk_sum; with_sum = (sum_idx \<noteq> -1) in
      if with_sum then sum_zero_point (post_ops ! nat sum_idx) else 0)"

text \<open>
  The lambda \<^verbatim>\<open>is_accepted_postop\<close>: the loop over the accepted types, with the
  \<^verbatim>\<open>switch\<close> in its body. A \<^verbatim>\<open>return\<close> ends the loop, a \<^verbatim>\<open>break\<close> goes on with the
  next accepted type, and \<^verbatim>\<open>false\<close> is returned after the last. (\<^verbatim>\<open>dst_d\<close> is not null
  here: the check before has returned otherwise.)
\<close>

fun is_accepted_loop ::
  "eltwise_is_supported_t \<Rightarrow> get_src1_desc_t \<Rightarrow> binary_is_supported_t \<Rightarrow>
   post_ops_ok_args_t \<Rightarrow> memory_desc_wrapper \<Rightarrow> nat \<Rightarrow> post_op_type list \<Rightarrow> bool" where
  "is_accepted_loop esup src1 bsup args dst idx [] = False"
| "is_accepted_loop esup src1 bsup args dst idx (post_op # rest) =
     (let entry = arg_post_ops args ! idx in
      case post_op of
        sum_type \<Rightarrow>
          if is_sum entry then
            if sum_requires_same_params args
                \<and> f32_ne (sum_scale entry) (canonical_sum_scale (arg_post_ops args))
            then False
            else if sum_requires_same_params args
                \<and> sum_zero_point entry \<noteq> canonical_sum_zero_point (arg_post_ops args)
            then False
            else if sum_requires_scale_one args \<and> f32_ne (sum_scale entry) (F_fin 1)
            then False
            else if sum_requires_zp_zero args \<and> sum_zero_point entry \<noteq> 0
            then False
            else (sum_at_pos_0_only args \<longrightarrow> idx = 0)
          else is_accepted_loop esup src1 bsup args dst idx rest
      | eltwise_type \<Rightarrow>
          if is_eltwise entry then esup (arg_isa args) (eltwise_alg entry) dnnl_f32
          else is_accepted_loop esup src1 bsup args dst idx rest
      | binary_type \<Rightarrow>
          if is_like_binary entry
          then bsup (arg_isa args) (src1 entry dst) dst (enabled_bcast_strategy args)
          else is_accepted_loop esup src1 bsup args dst idx rest
      | prelu_type \<Rightarrow>
          if is_like_binary entry
          then bsup (arg_isa args) (src1 entry dst) dst (enabled_bcast_strategy args)
          else is_accepted_loop esup src1 bsup args dst idx rest
      | depthwise_type \<Rightarrow>
          if is_depthwise entry then True
          else is_accepted_loop esup src1 bsup args dst idx rest
      | quantization_type \<Rightarrow>
          if is_quantization entry then True
          else is_accepted_loop esup src1 bsup args dst idx rest)"

definition is_accepted_postop ::
  "eltwise_is_supported_t \<Rightarrow> get_src1_desc_t \<Rightarrow> binary_is_supported_t \<Rightarrow>
   post_ops_ok_args_t \<Rightarrow> memory_desc_wrapper \<Rightarrow> nat \<Rightarrow> bool" where
  "is_accepted_postop esup src1 bsup args dst idx =
     is_accepted_loop esup src1 bsup args dst idx (accepted_post_op_types args)"

definition post_ops_ok ::
  "eltwise_is_supported_t \<Rightarrow> get_src1_desc_t \<Rightarrow> binary_is_supported_t \<Rightarrow>
   post_ops_ok_args_t \<Rightarrow> bool" where
  "post_ops_ok esup src1 bsup args =
     (case dst_d args of
        None \<Rightarrow> False
      | Some dst \<Rightarrow>
          if format_kind dst = dnnl_format_kind_any then False
          else list_all (is_accepted_postop esup src1 bsup args dst)
                 [0..<length (arg_post_ops args)])"

section \<open>The factory \<^verbatim>\<open>create\<close>\<close>

text \<open>
  \<^verbatim>\<open>mayiuse\<close> is the probe of the running CPU, a parameter. The factory calls the
  constructor with four parameters, which delegates to the one with six. A pointer
  result is \<open>Some\<close> of the object, \<^verbatim>\<open>nullptr\<close> is \<open>None\<close>. The last two statements
  are \<^verbatim>\<open>assert(!"Kernel is empty!"); return nullptr;\<close>: the assertion fails in a debug
  build, and with \<^verbatim>\<open>NDEBUG\<close> the function returns the null pointer.
\<close>

type_synonym mayiuse_t = "cpu_isa_t \<Rightarrow> bool"

definition new_ptr :: "error + 'a \<Rightarrow> error + 'a option" where
  "new_ptr r = (case r of Inl e \<Rightarrow> Inl e | Inr obj \<Rightarrow> Inr (Some obj))"

definition kernel_is_empty :: "bool \<Rightarrow> error + 'a option" where
  "kernel_is_empty ndebug =
     (if ndebug then Inr None else Inl (Assertion_failed ''Kernel is empty!''))"

definition create_Zmm ::
  "bool \<Rightarrow> is_superset_t \<Rightarrow> mayiuse_t \<Rightarrow> quantization_static_params_t \<Rightarrow> cpu_isa_t \<Rightarrow>
   post_ops_t \<Rightarrow> binary_static_params_t \<Rightarrow> eltwise_static_params_t \<Rightarrow>
   error + jit_uni_postops_injector_t option" where
  "create_Zmm ndebug is_superset mayiuse dq isa post_ops bsp esp =
     (if isa = avx512_core_fp16 then
        new_ptr (new_injector_bsp_esp ndebug is_superset dq avx512_core_fp16 post_ops bsp esp)
      else if isa = avx512_core_bf16 then
        new_ptr (new_injector_bsp_esp ndebug is_superset dq avx512_core_bf16 post_ops bsp esp)
      else if isa = avx512_core then
        new_ptr (new_injector_bsp_esp ndebug is_superset dq avx512_core post_ops bsp esp)
      else if mayiuse avx512_core_fp16 then
        new_ptr (new_injector_bsp_esp ndebug is_superset dq avx512_core_fp16 post_ops bsp esp)
      else if mayiuse avx512_core_bf16 then
        new_ptr (new_injector_bsp_esp ndebug is_superset dq avx512_core_bf16 post_ops bsp esp)
      else if mayiuse avx512_core then
        new_ptr (new_injector_bsp_esp ndebug is_superset dq avx512_core post_ops bsp esp)
      else kernel_is_empty ndebug)"

definition create_Ymm ::
  "bool \<Rightarrow> is_superset_t \<Rightarrow> mayiuse_t \<Rightarrow> quantization_static_params_t \<Rightarrow> cpu_isa_t \<Rightarrow>
   post_ops_t \<Rightarrow> binary_static_params_t \<Rightarrow> eltwise_static_params_t \<Rightarrow>
   error + jit_uni_postops_injector_t option" where
  "create_Ymm ndebug is_superset mayiuse dq isa post_ops bsp esp =
     (if isa = avx512_core_fp16 then
        new_ptr (new_injector_bsp_esp ndebug is_superset dq avx512_core_fp16 post_ops bsp esp)
      else if isa = avx512_core then
        new_ptr (new_injector_bsp_esp ndebug is_superset dq avx512_core post_ops bsp esp)
      else if isa = avx2_vnni_2 then
        new_ptr (new_injector_bsp_esp ndebug is_superset dq avx2_vnni_2 post_ops bsp esp)
      else if isa = avx2 then
        new_ptr (new_injector_bsp_esp ndebug is_superset dq avx2 post_ops bsp esp)
      else if isa = avx then
        new_ptr (new_injector_bsp_esp ndebug is_superset dq avx post_ops bsp esp)
      else if mayiuse avx512_core_fp16 then
        new_ptr (new_injector_bsp_esp ndebug is_superset dq avx512_core_fp16 post_ops bsp esp)
      else if mayiuse avx512_core then
        new_ptr (new_injector_bsp_esp ndebug is_superset dq avx512_core post_ops bsp esp)
      else if mayiuse avx2_vnni_2 then
        new_ptr (new_injector_bsp_esp ndebug is_superset dq avx2_vnni_2 post_ops bsp esp)
      else if mayiuse avx2 then
        new_ptr (new_injector_bsp_esp ndebug is_superset dq avx2 post_ops bsp esp)
      else if mayiuse avx then
        new_ptr (new_injector_bsp_esp ndebug is_superset dq avx post_ops bsp esp)
      else kernel_is_empty ndebug)"

definition create_Xmm ::
  "bool \<Rightarrow> is_superset_t \<Rightarrow> mayiuse_t \<Rightarrow> quantization_static_params_t \<Rightarrow> cpu_isa_t \<Rightarrow>
   post_ops_t \<Rightarrow> binary_static_params_t \<Rightarrow> eltwise_static_params_t \<Rightarrow>
   error + jit_uni_postops_injector_t option" where
  "create_Xmm ndebug is_superset mayiuse dq isa post_ops bsp esp =
     (if isa = avx512_core_fp16 then
        new_ptr (new_injector_bsp_esp ndebug is_superset dq avx512_core_fp16 post_ops bsp esp)
      else if isa = avx512_core then
        new_ptr (new_injector_bsp_esp ndebug is_superset dq avx512_core post_ops bsp esp)
      else if isa = avx2_vnni_2 then
        new_ptr (new_injector_bsp_esp ndebug is_superset dq avx2_vnni_2 post_ops bsp esp)
      else if isa = avx2 then
        new_ptr (new_injector_bsp_esp ndebug is_superset dq avx2 post_ops bsp esp)
      else if isa = avx then
        new_ptr (new_injector_bsp_esp ndebug is_superset dq avx post_ops bsp esp)
      else if isa = sse41 then
        new_ptr (new_injector_bsp_esp ndebug is_superset dq sse41 post_ops bsp esp)
      else if mayiuse avx512_core_fp16 then
        new_ptr (new_injector_bsp_esp ndebug is_superset dq avx512_core_fp16 post_ops bsp esp)
      else if mayiuse avx512_core then
        new_ptr (new_injector_bsp_esp ndebug is_superset dq avx512_core post_ops bsp esp)
      else if mayiuse avx2_vnni_2 then
        new_ptr (new_injector_bsp_esp ndebug is_superset dq avx2_vnni_2 post_ops bsp esp)
      else if mayiuse avx2 then
        new_ptr (new_injector_bsp_esp ndebug is_superset dq avx2 post_ops bsp esp)
      else if mayiuse avx then
        new_ptr (new_injector_bsp_esp ndebug is_superset dq avx post_ops bsp esp)
      else if mayiuse sse41 then
        new_ptr (new_injector_bsp_esp ndebug is_superset dq sse41 post_ops bsp esp)
      else kernel_is_empty ndebug)"

text \<open>
  The spec's reading of the factory: one priority-ordered list of tiers per register
  width; an exact match of the requested ISA in the list first, else the first tier of
  the same list that the CPU supports, else no injector.
\<close>

definition tiers_Zmm :: "cpu_isa_t list" where
  "tiers_Zmm = [avx512_core_fp16, avx512_core_bf16, avx512_core]"

definition tiers_Ymm :: "cpu_isa_t list" where
  "tiers_Ymm = [avx512_core_fp16, avx512_core, avx2_vnni_2, avx2, avx]"

definition tiers_Xmm :: "cpu_isa_t list" where
  "tiers_Xmm = [avx512_core_fp16, avx512_core, avx2_vnni_2, avx2, avx, sse41]"

definition create_by_priority ::
  "cpu_isa_t list \<Rightarrow> bool \<Rightarrow> is_superset_t \<Rightarrow> mayiuse_t \<Rightarrow> quantization_static_params_t \<Rightarrow>
   cpu_isa_t \<Rightarrow> post_ops_t \<Rightarrow> binary_static_params_t \<Rightarrow> eltwise_static_params_t \<Rightarrow>
   error + jit_uni_postops_injector_t option" where
  "create_by_priority tiers ndebug is_superset mayiuse dq isa post_ops bsp esp =
     (if isa \<in> set tiers then
        new_ptr (new_injector_bsp_esp ndebug is_superset dq isa post_ops bsp esp)
      else case List.find mayiuse tiers of
        Some t \<Rightarrow> new_ptr (new_injector_bsp_esp ndebug is_superset dq t post_ops bsp esp)
      | None \<Rightarrow> kernel_is_empty ndebug)"

text \<open>
  \<^verbatim>\<open>jit_pp_kernel_create\<close> of the epilogue kernel and the kernel's own
  \<^verbatim>\<open>post_ops_ok\<close>: the first of avx512_core, avx2, sse41 that the CPU supports and
  whose binary entries the binary sub-generator supports; the null pointer otherwise.
  The result is the tier of the kernel created.
\<close>

definition pp_post_ops_ok ::
  "get_src1_desc_t \<Rightarrow> binary_is_supported_t \<Rightarrow> bcast_set_t \<Rightarrow> cpu_isa_t \<Rightarrow>
   post_ops_t \<Rightarrow> memory_desc_wrapper \<Rightarrow> bool" where
  "pp_post_ops_ok src1 bsup default_strategies isa post_ops dst_md =
     list_all (\<lambda>post_op. is_binary post_op \<longrightarrow>
        bsup isa (src1 post_op dst_md) dst_md default_strategies) post_ops"

definition jit_pp_kernel_create ::
  "mayiuse_t \<Rightarrow> get_src1_desc_t \<Rightarrow> binary_is_supported_t \<Rightarrow> bcast_set_t \<Rightarrow>
   post_ops_t \<Rightarrow> memory_desc_wrapper \<Rightarrow> cpu_isa_t option" where
  "jit_pp_kernel_create mayiuse src1 bsup default_strategies post_ops dst_md =
     (if mayiuse avx512_core \<and> pp_post_ops_ok src1 bsup default_strategies avx512_core post_ops dst_md
      then Some avx512_core
      else if mayiuse avx2 \<and> pp_post_ops_ok src1 bsup default_strategies avx2 post_ops dst_md
      then Some avx2
      else if mayiuse sse41 \<and> pp_post_ops_ok src1 bsup default_strategies sse41 post_ops dst_md
      then Some sse41
      else None)"

section \<open>\<^verbatim>\<open>compute_vector_range\<close>\<close>

text \<open>
  The dynamic parameter blocks of the depthwise and quantization sub-generators, with
  the members \<^verbatim>\<open>compute_vector_range\<close> reads. \<^verbatim>\<open>vmm_idx_off\<close> is a
  \<^verbatim>\<open>std::map<size_t, int>\<close>. The parameters of the binary sub-generator are passed
  on as they are.
\<close>

record depthwise_dynamic_params_t =
  ddp_vmm_d_weights_idx :: nat
  ddp_vmm_d_bias_idx :: nat
  ddp_reg_d_weights :: nat
  ddp_reg_d_bias :: nat
  ddp_reg_init_off :: nat
  ddp_reg_init_off_addr :: nat
  ddp_vmm_idx_off :: "nat \<rightharpoonup> int"
  ddp_useAddr :: bool
  ddp_reg_post_ops_data :: nat
  ddp_base_post_ops_data_offset :: "64 word"

record quantization_dynamic_params_t =
  qdp_reg_oc_off :: nat
  qdp_reg_oc_off_addr :: nat
  qdp_vmm_idx_off :: "nat \<rightharpoonup> int"
  qdp_dst_dt :: data_type_t
  qdp_useAddr :: bool
  qdp_reg_post_ops_data :: nat
  qdp_base_post_ops_data_offset :: "64 word"

type_synonym rhs_arg_dynamic_params_t = nat

text \<open>
  An \<^verbatim>\<open>Xbyak::RegExp\<close> made of a register and a displacement, and an operand that is
  either a register or an address.
\<close>

datatype reg_exp = RegExp nat "64 word"

datatype operand = Reg nat | Addr nat

text \<open>
  \<^verbatim>\<open>injector_utils::vmm_index_set_t\<close> is a \<^verbatim>\<open>std::set<size_t>\<close>: the list of its
  elements in ascending order, which is the order of iteration.
\<close>

type_synonym vmm_index_set_t = "nat list"

definition set_insert :: "nat \<Rightarrow> vmm_index_set_t \<Rightarrow> vmm_index_set_t" where
  "set_insert x s = (if x \<in> set s then s else insort x s)"

text \<open>The calls that \<^verbatim>\<open>compute_vector_range\<close> makes, with their arguments.\<close>

datatype call =
    Eltwise_compute_vector_range eltwise_injector vmm_index_set_t
  | Binary_compute_vector_range binary_injector vmm_index_set_t nat entry_t
      rhs_arg_dynamic_params_t
  | Depthwise_init_ptrs depthwise_injector reg_exp nat nat operand bool
  | Depthwise_compute depthwise_injector nat nat nat nat nat nat bool int bool
  | Quantization_init_crop_ptrs quantization_injector reg_exp operand
  | Quantization_compute_crop quantization_injector vmm_index_set_t int bool bool
  | Quantization_init_input_scale_shift_ptrs quantization_injector reg_exp operand
  | Quantization_compute_input_scale_shift quantization_injector vmm_index_set_t int
      (do_rounding_arg: bool) bool bool
  | Quantization_init_output_scale_shift_ptrs quantization_injector reg_exp operand
  | Quantization_compute_output_scale_shift quantization_injector vmm_index_set_t int bool bool
  | Lambda_call callback

text \<open>
  \<^verbatim>\<open>memoryStep()\<close> of the depthwise and of the quantization sub-generator is outside
  the translated sources: two parameters, with values of type \<^verbatim>\<open>size_t\<close>.
\<close>

type_synonym dw_memoryStep_t = "depthwise_injector \<Rightarrow> 64 word"
type_synonym q_memoryStep_t = "quantization_injector \<Rightarrow> 64 word"

text \<open>The locals of the function, and the calls made so far.\<close>

record cvr_state =
  rhs_arg_idx :: nat
  quantization_inj_idx :: nat
  depthwise_inj_idx :: nat
  post_ops_data_offset :: "64 word"
  calls :: "call list"

definition cvr_init :: cvr_state where
  "cvr_init = \<lparr> rhs_arg_idx = 0, quantization_inj_idx = 0, depthwise_inj_idx = 0,
                post_ops_data_offset = 0, calls = [] \<rparr>"

text \<open>\<^verbatim>\<open>std::map::at\<close> throws \<^verbatim>\<open>std::out_of_range\<close> for a key that is not there.\<close>

definition map_at :: "('k \<rightharpoonup> 'v) \<Rightarrow> 'k \<Rightarrow> error + 'v" where
  "map_at m k = (case m k of None \<Rightarrow> Inl Out_of_range | Some v \<Rightarrow> Inr v)"

fun at_all :: "('k \<rightharpoonup> 'v) \<Rightarrow> 'k list \<Rightarrow> error + ('k \<times> 'v) list" where
  "at_all m [] = Inr []"
| "at_all m (k # ks) =
     (case map_at m k of
        Inl e \<Rightarrow> Inl e
      | Inr v \<Rightarrow> (case at_all m ks of Inl e \<Rightarrow> Inl e | Inr kvs \<Rightarrow> Inr ((k, v) # kvs)))"

text \<open>
  The eltwise branch: \<^verbatim>\<open>alg_to_eltwise_injector_.at(i).compute_vector_range(vmm_idxs)\<close>.
\<close>

definition cvr_eltwise ::
  "jit_uni_postops_injector_t \<Rightarrow> vmm_index_set_t \<Rightarrow> cvr_state \<Rightarrow> nat \<Rightarrow> error + cvr_state" where
  "cvr_eltwise obj vmm_idxs st i =
     (case map_at (map_of (m_alg_to_eltwise_injector obj)) i of
        Inl e \<Rightarrow> Inl e
      | Inr ei \<Rightarrow> Inr (st \<lparr> calls := calls st @ [Eltwise_compute_vector_range ei vmm_idxs] \<rparr>))"

text \<open>The binary and prelu branch, through the pointer \<^verbatim>\<open>binary_injector_\<close>.\<close>

definition cvr_binary ::
  "jit_uni_postops_injector_t \<Rightarrow> vmm_index_set_t \<Rightarrow> rhs_arg_dynamic_params_t \<Rightarrow>
   cvr_state \<Rightarrow> entry_t \<Rightarrow> error + cvr_state" where
  "cvr_binary obj vmm_idxs rhs_arg_params st post_op =
     (case m_binary_injector obj of
        None \<Rightarrow> Inl Invalid_access
      | Some bi \<Rightarrow>
          Inr (st \<lparr> calls := calls st
                    @ [Binary_compute_vector_range bi vmm_idxs (rhs_arg_idx st) post_op rhs_arg_params],
                  rhs_arg_idx := rhs_arg_idx st + 1 \<rparr>))"

text \<open>The depthwise branch.\<close>

definition cvr_depthwise ::
  "dw_memoryStep_t \<Rightarrow> jit_uni_postops_injector_t \<Rightarrow> vmm_index_set_t \<Rightarrow>
   depthwise_dynamic_params_t \<Rightarrow> bool \<Rightarrow> cvr_state \<Rightarrow> entry_t \<Rightarrow> error + cvr_state" where
  "cvr_depthwise dw_memoryStep obj vmm_idxs ddp is_broadcast st post_op =
     (if depthwise_inj_idx st \<ge> length (depthwise_injectors obj) then Inl Invalid_access
      else
        let di = depthwise_injectors obj ! depthwise_inj_idx st;
            depthwise_arg_base = RegExp (ddp_reg_post_ops_data ddp)
              (ddp_base_post_ops_data_offset ddp + post_ops_data_offset st);
            init = Depthwise_init_ptrs di depthwise_arg_base
              (ddp_reg_d_weights ddp) (ddp_reg_d_bias ddp)
              (if ddp_useAddr ddp then Addr (ddp_reg_init_off_addr ddp)
               else Reg (ddp_reg_init_off ddp)) False;
            need_to_preserve = (depthwise_alg post_op = depthwise_prelu \<and> inj_isa obj = sse41)
        in
        case at_all (ddp_vmm_idx_off ddp) vmm_idxs of
          Inl e \<Rightarrow> Inl e
        | Inr offs \<Rightarrow>
            Inr (st \<lparr> calls := calls st @ [init]
                      @ map (\<lambda>(vmm_idx, off).
                          Depthwise_compute di vmm_idx (vmm_idx + 1)
                            (if need_to_preserve then 0 else ddp_vmm_d_weights_idx ddp)
                            (ddp_vmm_d_bias_idx ddp) (ddp_reg_d_weights ddp) (ddp_reg_d_bias ddp)
                            is_broadcast off need_to_preserve) offs,
                    post_ops_data_offset := post_ops_data_offset st + dw_memoryStep di,
                    rhs_arg_idx := rhs_arg_idx st + 1,
                    depthwise_inj_idx := depthwise_inj_idx st + 1 \<rparr>))"

text \<open>
  The quantization branch. \<^verbatim>\<open>offsetVmmIdxMap\<close> is a \<^verbatim>\<open>std::multimap<int, size_t>\<close>:
  pairs in the order of their keys, a new pair after the pairs of the same key. The
  grouping loop takes, from the first pair on, all pairs before
  \<^verbatim>\<open>upper_bound(externalIt->first)\<close> into one \<^verbatim>\<open>std::set\<close>, and goes on from there.
\<close>

fun multimap_insert :: "int \<times> nat \<Rightarrow> (int \<times> nat) list \<Rightarrow> (int \<times> nat) list" where
  "multimap_insert p [] = [p]"
| "multimap_insert p (q # qs) =
     (if fst p < fst q then p # q # qs else q # multimap_insert p qs)"

function group_by_offset :: "(int \<times> nat) list \<Rightarrow> (int \<times> vmm_index_set_t) list" where
  "group_by_offset [] = []"
| "group_by_offset (p # ps) =
     (fst p, foldl (\<lambda>s q. set_insert (snd q) s) []
               (p # takeWhile (\<lambda>q. \<not> fst p < fst q) ps))
     # group_by_offset (dropWhile (\<lambda>q. \<not> fst p < fst q) ps)"
  by pat_completeness auto
termination
  by (relation "measure length") (auto simp: le_imp_less_Suc length_dropWhile_le)

definition vecOfVmmIdxsSets ::
  "(nat \<times> int) list \<Rightarrow> (int \<times> vmm_index_set_t) list" where
  "vecOfVmmIdxsSets offs =
     group_by_offset (foldl (\<lambda>m (vmm_idx, off). multimap_insert (off, vmm_idx) m) [] offs)"

text \<open>
  The calls of the branch on the sub-generator \<open>qi\<close>, in their order: the crop step,
  the input scale and shift step, which takes \<open>do_rounding\<close>, and the output scale and
  shift step, each once per group of vector registers.
\<close>

definition quantization_calls ::
  "quantization_injector \<Rightarrow> reg_exp \<Rightarrow> operand \<Rightarrow> (int \<times> vmm_index_set_t) list \<Rightarrow>
   bool \<Rightarrow> bool \<Rightarrow> call list" where
  "quantization_calls qi quant_arg_base oc_off sets do_rounding is_broadcast =
     [Quantization_init_crop_ptrs qi quant_arg_base oc_off]
     @ map (\<lambda>(off, idxs). Quantization_compute_crop qi idxs off False is_broadcast) sets
     @ [Quantization_init_input_scale_shift_ptrs qi quant_arg_base oc_off]
     @ map (\<lambda>(off, idxs).
         Quantization_compute_input_scale_shift qi idxs off do_rounding False is_broadcast) sets
     @ [Quantization_init_output_scale_shift_ptrs qi quant_arg_base oc_off]
     @ map (\<lambda>(off, idxs).
         Quantization_compute_output_scale_shift qi idxs off False is_broadcast) sets"

definition cvr_quantization ::
  "q_memoryStep_t \<Rightarrow> jit_uni_postops_injector_t \<Rightarrow> vmm_index_set_t \<Rightarrow>
   quantization_dynamic_params_t \<Rightarrow> bool \<Rightarrow> cvr_state \<Rightarrow> nat \<Rightarrow> entry_t \<Rightarrow>
   error + cvr_state" where
  "cvr_quantization q_memoryStep obj vmm_idxs qdp is_broadcast st i post_op =
     (case at_all (qdp_vmm_idx_off qdp) vmm_idxs of
        Inl e \<Rightarrow> Inl e
      | Inr offs \<Rightarrow>
          let sets = vecOfVmmIdxsSets offs;
              do_dequantization = (quantization_alg post_op = quantization_quantize_dequantize);
              do_rounding = (do_dequantization \<or> qdp_dst_dt qdp = dnnl_f32
                             \<or> int i \<noteq> int (length (m_post_ops obj)) - 1)
          in
          if quantization_inj_idx st \<ge> length (quantization_injectors obj) then Inl Invalid_access
          else
            let qi = quantization_injectors obj ! quantization_inj_idx st;
                quant_arg_base = RegExp (qdp_reg_post_ops_data qdp)
                  (qdp_base_post_ops_data_offset qdp + post_ops_data_offset st);
                oc_off = (if qdp_useAddr qdp then Addr (qdp_reg_oc_off_addr qdp)
                          else Reg (qdp_reg_oc_off qdp))
            in
            Inr (st \<lparr> calls := calls st
                      @ quantization_calls qi quant_arg_base oc_off sets do_rounding is_broadcast,
                    post_ops_data_offset := post_ops_data_offset st + q_memoryStep qi,
                    rhs_arg_idx := rhs_arg_idx st + 1,
                    quantization_inj_idx := quantization_inj_idx st + 1 \<rparr>))"

text \<open>
  The last branch: the callback registered for the kind of the entry, when there is
  one.
\<close>

definition cvr_lambda ::
  "jit_uni_postops_injector_t \<Rightarrow> cvr_state \<Rightarrow> entry_t \<Rightarrow> error + cvr_state" where
  "cvr_lambda obj st post_op =
     (case m_lambda_jit_injectors obj (kind post_op) of
        None \<Rightarrow> Inr st
      | Some lam \<Rightarrow> Inr (st \<lparr> calls := calls st @ [Lambda_call lam] \<rparr>))"

definition cvr_body ::
  "dw_memoryStep_t \<Rightarrow> q_memoryStep_t \<Rightarrow> jit_uni_postops_injector_t \<Rightarrow> vmm_index_set_t \<Rightarrow>
   rhs_arg_dynamic_params_t \<Rightarrow> depthwise_dynamic_params_t \<Rightarrow> quantization_dynamic_params_t \<Rightarrow>
   bool \<Rightarrow> cvr_state \<Rightarrow> nat \<Rightarrow> error + cvr_state" where
  "cvr_body dw_memoryStep q_memoryStep obj vmm_idxs rhs_arg_params ddp qdp is_broadcast st i =
     (let post_op = m_post_ops obj ! i in
      if is_eltwise post_op then cvr_eltwise obj vmm_idxs st i
      else if is_like_binary post_op then cvr_binary obj vmm_idxs rhs_arg_params st post_op
      else if is_depthwise post_op then
        cvr_depthwise dw_memoryStep obj vmm_idxs ddp is_broadcast st post_op
      else if is_quantization post_op then
        cvr_quantization q_memoryStep obj vmm_idxs qdp is_broadcast st i post_op
      else cvr_lambda obj st post_op)"

text \<open>
  \<open>cvr_steps \<dots> n\<close> is the state after the iterations \<open>i = 0, \<dots>, n - 1\<close> of the
  loop over the chain, that is, after the prefix of length \<open>n\<close>; an exception ends the
  function. \<^verbatim>\<open>compute_vector_range\<close> runs all iterations.
\<close>

primrec cvr_steps ::
  "dw_memoryStep_t \<Rightarrow> q_memoryStep_t \<Rightarrow> jit_uni_postops_injector_t \<Rightarrow> vmm_index_set_t \<Rightarrow>
   rhs_arg_dynamic_params_t \<Rightarrow> depthwise_dynamic_params_t \<Rightarrow> quantization_dynamic_params_t \<Rightarrow>
   bool \<Rightarrow> nat \<Rightarrow> error + cvr_state" where
  "cvr_steps dw_memoryStep q_memoryStep obj vmm_idxs rhs_arg_params ddp qdp is_broadcast 0 =
     Inr cvr_init"
| "cvr_steps dw_memoryStep q_memoryStep obj vmm_idxs rhs_arg_params ddp qdp is_broadcast (Suc i) =
     (case cvr_steps dw_memoryStep q_memoryStep obj vmm_idxs rhs_arg_params ddp qdp is_broadcast i of
        Inl e \<Rightarrow> Inl e
      | Inr st \<Rightarrow>
          cvr_body dw_memoryStep q_memoryStep obj vmm_idxs rhs_arg_params ddp qdp is_broadcast st i)"



section \<open>The stack reservation for the auxiliary pointer table\<close>

text \<open>
  \<^verbatim>\<open>push_post_ops_data_on_stack\<close> and \<^verbatim>\<open>reset_stack_pointer\<close> emit instructions through
  the host generator. The instructions they emit, with registers as their indices, and
  what the instructions do to the registers and to memory when the generated code runs.
  Memory is read and written in pointer-sized cells (all accesses here are 8 bytes
  wide).
\<close>

datatype instr =
    Sub nat "64 word"
  | Add nat "64 word"
  | Mov_load nat nat "64 word"
  | Mov_store nat "64 word" nat

record machine =
  regs :: "nat \<Rightarrow> 64 word"
  mem :: "64 word \<Rightarrow> 64 word"

fun exec :: "instr \<Rightarrow> machine \<Rightarrow> machine" where
  "exec (Sub r imm) m = m \<lparr> regs := (regs m)(r := regs m r - imm) \<rparr>"
| "exec (Add r imm) m = m \<lparr> regs := (regs m)(r := regs m r + imm) \<rparr>"
| "exec (Mov_load dst base disp) m = m \<lparr> regs := (regs m)(dst := mem m (regs m base + disp)) \<rparr>"
| "exec (Mov_store base disp src) m = m \<lparr> mem := (mem m)(regs m base + disp := regs m src) \<rparr>"

definition run :: "instr list \<Rightarrow> machine \<Rightarrow> machine" where
  "run code m = foldl (\<lambda>m i. exec i m) m code"

text \<open>The stack pointer \<^verbatim>\<open>host_->rsp\<close>, and \<^verbatim>\<open>sizeof(float *)\<close>.\<close>

definition rsp :: nat where
  "rsp = 4"

definition sizeof_float_ptr :: nat where
  "sizeof_float_ptr = 8"

text \<open>The immediate or displacement \<^verbatim>\<open>n * sizeof(float *)\<close>.\<close>

definition ptr_disp :: "nat \<Rightarrow> 64 word" where
  "ptr_disp n = of_nat (n * sizeof_float_ptr)"

text \<open>
  The first loop counts the depthwise and quantization entries into the member
  \<^verbatim>\<open>post_ops_pointers_count\<close>, from the value the member has. The function returns the
  object with the member updated, and the instructions emitted.
\<close>

definition count_pointers :: "nat \<Rightarrow> post_ops_t \<Rightarrow> nat" where
  "count_pointers c post_ops =
     foldl (\<lambda>c e. if is_depthwise e \<or> is_quantization e then c + 1 else c) c post_ops"

definition push_post_ops_data_on_stack ::
  "jit_uni_postops_injector_t \<Rightarrow> nat \<Rightarrow> nat \<Rightarrow> nat \<Rightarrow> nat \<Rightarrow>
   jit_uni_postops_injector_t \<times> instr list" where
  "push_post_ops_data_on_stack obj post_ops_data_reg data_offset aux_reg0 aux_reg1 =
     (let c = count_pointers (post_ops_pointers_count obj) (m_post_ops obj);
          obj' = obj \<lparr> post_ops_pointers_count := c \<rparr>
      in
      if c \<noteq> 0 then
        (obj',
         [Sub rsp (ptr_disp c),
          Mov_load aux_reg0 post_ops_data_reg (of_nat data_offset)]
         @ concat (map (\<lambda>i.
             [Mov_load aux_reg1 aux_reg0 (ptr_disp i),
              Mov_store rsp (ptr_disp i) aux_reg1]) [0..<c]))
      else (obj', []))"

definition reset_stack_pointer :: "jit_uni_postops_injector_t \<Rightarrow> instr list" where
  "reset_stack_pointer obj =
     (if post_ops_pointers_count obj \<noteq> 0 then
        [Add rsp (ptr_disp (post_ops_pointers_count obj))]
      else [])"

section \<open>The epilogue kernel \<^verbatim>\<open>jit_pp_kernel_t\<close>\<close>

text \<open>
  Modelled from the spec: \<^verbatim>\<open>cpu_isa_traits<isa>::vlen / sizeof(float)\<close>, from a header
  outside the translated sources, for the three tiers the kernel is instantiated for
  (\<^verbatim>\<open>jit_pp_kernel_create\<close>): 16 floats on avx512_core, 8 on avx2 and 4 on sse41.
\<close>

definition vlen :: "cpu_isa_t \<Rightarrow> nat" where
  "vlen isa = (if isa = avx512_core then 16 else if isa = avx2 then 8 else 4)"

text \<open>
  What the generated code does when it runs. \<^verbatim>\<open>reg_len\<close> holds the remaining length;
  the code compares it as a signed number and never subtracts below zero, so it is an
  integer here. \<^verbatim>\<open>reg_dst\<close> is counted in elements from \<^verbatim>\<open>args.dst\<close>. \<open>lane_mask\<close> is the
  lane mask of the tail (\<^verbatim>\<open>kreg_rem_mask\<close> on avx512_core, \<^verbatim>\<open>vreg_mask\<close> on the other
  tiers), one flag per lane.
\<close>

datatype kernel_event =
    Load nat "bool list"
  | Bias_add
  | Post_ops bool
  | Store nat "bool list"

record ker_state =
  reg_len :: int
  reg_dst :: nat
  lane_mask :: "bool list"
  events :: "kernel_event list"

text \<open>
  The lambda \<^verbatim>\<open>compute(apply_mask)\<close>: the load of the destination, the bias, the
  post-ops and the store. On avx512_core the register of the masked iteration carries
  the opmask in the load and in the store; on avx2 both are \<^verbatim>\<open>vmaskmovps\<close>; on sse41
  the load is a full \<^verbatim>\<open>uni_vmovups\<close> and the store is \<^verbatim>\<open>maskmovdqu\<close>.
\<close>

definition compute :: "cpu_isa_t \<Rightarrow> bool \<Rightarrow> bool \<Rightarrow> ker_state \<Rightarrow> ker_state" where
  "compute isa do_bias apply_mask st =
     (let full = replicate (vlen isa) True;
          load_lanes =
            (if isa = avx512_core then (if apply_mask then lane_mask st else full)
             else if apply_mask then (if isa \<noteq> sse41 then lane_mask st else full)
             else full);
          store_lanes =
            (if isa = avx512_core then (if apply_mask then lane_mask st else full)
             else if apply_mask then lane_mask st
             else full)
      in st \<lparr> events := events st
                 @ [Load (reg_dst st) load_lanes]
                 @ (if do_bias then [Bias_add] else [])
                 @ [Post_ops apply_mask]
                 @ [Store (reg_dst st) store_lanes] \<rparr>)"

text \<open>
  The loop of full iterations, \<^verbatim>\<open>L(loop); \<dots> jge(loop)\<close>: its body runs, and runs again
  while the remaining length is at least \<^verbatim>\<open>vlen\<close>.
\<close>

function full_loop :: "cpu_isa_t \<Rightarrow> bool \<Rightarrow> ker_state \<Rightarrow> ker_state" where
  "full_loop isa do_bias st =
     (let st' = (compute isa do_bias False st)
                  \<lparr> reg_len := reg_len st - int (vlen isa),
                    reg_dst := reg_dst st + vlen isa \<rparr>
      in if reg_len st' \<ge> int (vlen isa) then full_loop isa do_bias st' else st')"
  by pat_completeness auto
termination
  by (relation "measure (\<lambda>(isa, do_bias, st). nat (reg_len st))")
     (auto simp: compute_def vlen_def Let_def split: if_splits)

text \<open>
  The tail. On avx512_core the mask is \<^verbatim>\<open>(1 << cl) - 1\<close>, with the count of the shift
  taken modulo 64, and \<^verbatim>\<open>jz(loop_end)\<close> leaves when it is zero. On the other tiers the
  mask is read from the table of \<^verbatim>\<open>vlen\<close> words of ones followed by \<^verbatim>\<open>vlen\<close> words of
  zeros, at the index \<^verbatim>\<open>vlen - reg_tmp\<close>; a read outside the table is an invalid access.
\<close>

definition tail :: "cpu_isa_t \<Rightarrow> bool \<Rightarrow> ker_state \<Rightarrow> error + ker_state" where
  "tail isa do_bias st =
     (let reg_tmp = reg_len st in
      if isa = avx512_core then
        let reg_rem_mask = push_bit (nat (reg_tmp mod 64)) (1 :: 64 word) - 1 in
        if reg_rem_mask = 0 then Inr st
        else Inr (compute isa do_bias True
                    (st \<lparr> lane_mask := map (bit reg_rem_mask) [0..<vlen isa] \<rparr>))
      else
        let reg_shift_table = int (vlen isa) - reg_tmp;
            table = replicate (vlen isa) True @ replicate (vlen isa) False
        in
        if 0 \<le> reg_shift_table \<and> reg_shift_table \<le> int (vlen isa) then
          Inr (compute isa do_bias True
                 (st \<lparr> lane_mask := take (vlen isa) (drop (nat reg_shift_table) table) \<rparr>))
        else Inl Invalid_access)"

text \<open>The code between \<^verbatim>\<open>preamble()\<close> and \<^verbatim>\<open>postamble()\<close>, run on the length \<open>len\<close>.\<close>

definition generate :: "cpu_isa_t \<Rightarrow> bool \<Rightarrow> int \<Rightarrow> error + ker_state" where
  "generate isa do_bias len =
     (let st = \<lparr> reg_len = len, reg_dst = 0, lane_mask = [], events = [] \<rparr> in
      if reg_len st = 0 then Inr st
      else if reg_len st < int (vlen isa) then tail isa do_bias st
      else tail isa do_bias (full_loop isa do_bias st))"

text \<open>The destination elements that the stores of a run write.\<close>

fun written :: "kernel_event list \<Rightarrow> nat list" where
  "written [] = []"
| "written (Store a lanes # es) =
     map (\<lambda>j. a + j) (filter (\<lambda>j. lanes ! j) [0..<length lanes]) @ written es"
| "written (e # es) = written es"

section \<open>Auxiliary notions for the statements\<close>

text \<open>
  The content of \<^verbatim>\<open>alg_to_eltwise_injector_\<close> after the first \<open>n\<close> iterations of the
  constructor's loop: one eltwise sub-generator per eltwise entry, under the entry's
  position.
\<close>

definition elt_pairs ::
  "cpu_isa_t \<Rightarrow> eltwise_static_params_t \<Rightarrow> post_ops_t \<Rightarrow> nat \<Rightarrow> (nat \<times> eltwise_injector) list" where
  "elt_pairs isa esp ps n =
     map (\<lambda>i. (i, jit_uni_eltwise_injector isa (ps ! i) dnnl_f32 esp))
       (filter (\<lambda>i. is_eltwise (ps ! i)) [0..<n])"

text \<open>
  The condition under which the constructor's \<^verbatim>\<open>assert\<close> fails: an eltwise and a
  binary or prelu entry, on a superset of avx512_core, with a tail, and one mask
  register for both.
\<close>

definition mask_conflict ::
  "is_superset_t \<Rightarrow> cpu_isa_t \<Rightarrow> post_ops_t \<Rightarrow> binary_static_params_t \<Rightarrow> eltwise_static_params_t \<Rightarrow> bool" where
  "mask_conflict is_superset isa post_ops bsp esp =
     (is_superset isa avx512_core
      \<and> list_ex is_eltwise post_ops \<and> list_ex is_like_binary post_ops
      \<and> rhs_tail_size (rhs_arg_static_params bsp) \<noteq> 0
      \<and> esp_k_mask esp = rhs_tail_opmask (rhs_arg_static_params bsp))"

text \<open>
  \<^verbatim>\<open>memoryStep()\<close> of the sub-generator that the constructor builds for a depthwise
  or quantization entry.
\<close>

definition entry_memoryStep ::
  "dw_memoryStep_t \<Rightarrow> q_memoryStep_t \<Rightarrow> cpu_isa_t \<Rightarrow> quantization_static_params_t \<Rightarrow>
   entry_t \<Rightarrow> 64 word" where
  "entry_memoryStep dw_memoryStep q_memoryStep isa qsp e =
     (if is_depthwise e then dw_memoryStep (jit_uni_depthwise_injector_f32 isa e)
      else q_memoryStep (jit_uni_quantization_injector_f32 isa e qsp))"

text \<open>
  What \<^verbatim>\<open>compute_vector_range\<close> relies on in the object: the depthwise and
  quantization sub-generators of the chain's entries in chain order, an eltwise
  sub-generator under the position of every eltwise entry, and the binary sub-generator
  when the chain has a binary or prelu entry.
\<close>

definition well_formed ::
  "jit_uni_postops_injector_t \<Rightarrow> cpu_isa_t \<Rightarrow> quantization_static_params_t \<Rightarrow> bool" where
  "well_formed obj isa qsp =
     (depthwise_injectors obj =
        map (jit_uni_depthwise_injector_f32 isa) (filter is_depthwise (m_post_ops obj))
      \<and> quantization_injectors obj =
        map (\<lambda>e. jit_uni_quantization_injector_f32 isa e qsp) (filter is_quantization (m_post_ops obj))
      \<and> (\<forall>i < length (m_post_ops obj). is_eltwise (m_post_ops obj ! i) \<longrightarrow>
            i \<in> fst ` set (m_alg_to_eltwise_injector obj))
      \<and> (list_ex is_like_binary (m_post_ops obj) \<longrightarrow> m_binary_injector obj \<noteq> None))"

text \<open>
  The caller's side: \<^verbatim>\<open>vmm_idx_off\<close> of the depthwise (quantization) parameters has an
  offset for every vector register of the call, when the chain has a depthwise
  (quantization) entry.
\<close>

definition covered ::
  "post_ops_t \<Rightarrow> vmm_index_set_t \<Rightarrow> depthwise_dynamic_params_t \<Rightarrow>
   quantization_dynamic_params_t \<Rightarrow> bool" where
  "covered ps vmm_idxs ddp qdp =
     ((list_ex is_depthwise ps \<longrightarrow> list_all (\<lambda>v. ddp_vmm_idx_off ddp v \<noteq> None) vmm_idxs)
      \<and> (list_ex is_quantization ps \<longrightarrow> list_all (\<lambda>v. qdp_vmm_idx_off qdp v \<noteq> None) vmm_idxs))"

definition uses_aux_data :: "entry_t \<Rightarrow> bool" where
  "uses_aux_data e = (is_depthwise e \<or> is_quantization e)"

text \<open>
  The \<^verbatim>\<open>do_rounding\<close> arguments of the \<^verbatim>\<open>compute_input_scale_shift\<close> calls in a
  sequence of calls.
\<close>

fun rounding_flags :: "call list \<Rightarrow> bool list" where
  "rounding_flags [] = []"
| "rounding_flags (Quantization_compute_input_scale_shift qi idxs off r a b # cs) =
     r # rounding_flags cs"
| "rounding_flags (c # cs) = rounding_flags cs"

text \<open>
  The copy loop of \<^verbatim>\<open>push_post_ops_data_on_stack\<close> for \<open>c\<close> pointers: for each index, the
  load of the pointer from the table and its store into the stack slot.
\<close>

definition copy_code :: "nat \<Rightarrow> nat \<Rightarrow> nat \<Rightarrow> instr list" where
  "copy_code aux_reg0 aux_reg1 c =
     concat (map (\<lambda>i.
       [Mov_load aux_reg1 aux_reg0 (ptr_disp i),
        Mov_store rsp (ptr_disp i) aux_reg1]) [0..<c])"

section \<open>Properties of \<^verbatim>\<open>aux_vec_count\<close>\<close>

lemmas is_kind_defs =
  is_sum_def is_eltwise_def is_binary_def is_prelu_def is_like_binary_def
  is_depthwise_def is_quantization_def

lemma max_list_Cons: "max_list (n # ns) = max n (max_list ns)"
  by (simp add: max_list_def)

lemma max_list_Nil: "max_list [] = 0"
  by (simp add: max_list_def)

lemma aux_vec_count_body_eltwise:
  "is_eltwise e \<Longrightarrow>
   aux_vec_count_body isup cnt isa fwd res e = max res (entry_aux_vecs isup cnt isa fwd e)"
  by (simp add: aux_vec_count_body_def entry_aux_vecs_def highest_tier_def)

lemma aux_vec_count_body_other:
  "\<not> is_eltwise e \<Longrightarrow> aux_vec_count_body isup cnt isa fwd res e = res"
  by (simp add: aux_vec_count_body_def)

lemma aux_vec_count_foldl:
  "foldl (aux_vec_count_body isup cnt isa fwd) res post_ops =
   max res (max_list (map (entry_aux_vecs isup cnt isa fwd) (filter is_eltwise post_ops)))"
proof (induction post_ops arbitrary: res)
  case Nil
  show ?case by (simp add: max_list_Nil)
next
  case (Cons e es)
  show ?case
  proof (cases "is_eltwise e")
    case True
    then show ?thesis
      by (simp add: Cons.IH aux_vec_count_body_eltwise max_list_Cons max.assoc)
  next
    case False
    then show ?thesis
      by (simp add: Cons.IH aux_vec_count_body_other)
  qed
qed

lemma aux_vec_count_eq:
  "aux_vec_count isup cnt post_ops isa fwd =
     max_list (map (entry_aux_vecs isup cnt isa fwd) (filter is_eltwise post_ops))"
  by (simp add: aux_vec_count_def aux_vec_count_foldl)

text \<open>
  C10. \<^verbatim>\<open>aux_vec_count\<close> returns the maximum, over the eltwise entries of the chain,
  of the eltwise auxiliary-vector count taken at the highest of the tiers avx512_core,
  avx2, sse41 that the given ISA is a superset of. Entries of other kinds contribute
  nothing: a chain without eltwise entries gives 0, and a non-eltwise entry inserted
  into (or removed from) any place of a chain leaves the result as it was.
\<close>

theorem aux_vec_count_is_max_over_eltwise:
  "aux_vec_count isup cnt post_ops isa fwd =
     max_list (map (entry_aux_vecs isup cnt isa fwd) (filter is_eltwise post_ops))
   \<and> ((\<forall>e \<in> set post_ops. \<not> is_eltwise e) \<longrightarrow>
        aux_vec_count isup cnt post_ops isa fwd = 0)
   \<and> (\<not> is_eltwise e \<longrightarrow>
        aux_vec_count isup cnt (xs @ e # ys) isa fwd =
        aux_vec_count isup cnt (xs @ ys) isa fwd)"
proof (intro conjI impI)
  show "aux_vec_count isup cnt post_ops isa fwd =
     max_list (map (entry_aux_vecs isup cnt isa fwd) (filter is_eltwise post_ops))"
    by (rule aux_vec_count_eq)
next
  assume "\<forall>e \<in> set post_ops. \<not> is_eltwise e"
  then have "filter is_eltwise post_ops = []"
    by (simp add: filter_empty_conv)
  then show "aux_vec_count isup cnt post_ops isa fwd = 0"
    by (simp add: aux_vec_count_eq max_list_Nil)
next
  assume "\<not> is_eltwise e"
  then show "aux_vec_count isup cnt (xs @ e # ys) isa fwd =
        aux_vec_count isup cnt (xs @ ys) isa fwd"
    by (simp add: aux_vec_count_eq)
qed

theorem aux_vec_count_is_max_over_eltwise_witness:
  "list_all (\<lambda>e. \<not> is_eltwise e) [sum_e (F_fin 1) 0, depthwise_e depthwise_prelu]
   \<and> aux_vec_count (\<lambda>a b. a = avx2 \<and> b \<noteq> avx512_core) (\<lambda>t a f x. 3)
        [sum_e (F_fin 1) 0, depthwise_e depthwise_prelu] avx2 True = 0
   \<and> \<not> is_eltwise (quantization_e quantization_quantize)
   \<and> aux_vec_count (\<lambda>a b. a = avx2 \<and> b \<noteq> avx512_core) (\<lambda>t a f x. 3)
        ([eltwise_e (alg_kind_other 0) (F_fin 0) (F_fin 0)]
           @ quantization_e quantization_quantize # [sum_e (F_fin 1) 0]) avx2 True =
      aux_vec_count (\<lambda>a b. a = avx2 \<and> b \<noteq> avx512_core) (\<lambda>t a f x. 3)
        ([eltwise_e (alg_kind_other 0) (F_fin 0) (F_fin 0)] @ [sum_e (F_fin 1) 0]) avx2 True"
  using aux_vec_count_is_max_over_eltwise
    [of "\<lambda>a b. a = avx2 \<and> b \<noteq> avx512_core" "\<lambda>t a f x. 3"
        "[sum_e (F_fin 1) 0, depthwise_e depthwise_prelu]" avx2 True
        "quantization_e quantization_quantize"
        "[eltwise_e (alg_kind_other 0) (F_fin 0) (F_fin 0)]" "[sum_e (F_fin 1) 0]"]
  by (simp add: is_eltwise_def)

section \<open>Properties of \<^verbatim>\<open>post_ops_ok\<close>\<close>

lemma sum_entry_kinds:
  "is_sum e \<Longrightarrow> \<not> is_eltwise e \<and> \<not> is_like_binary e \<and> \<not> is_depthwise e \<and> \<not> is_quantization e"
  by (simp add: is_kind_defs)

lemma is_accepted_loop_sum:
  assumes "is_sum (arg_post_ops args ! idx)"
  shows "is_accepted_loop esup src1 bsup args dst idx types =
     (sum_type \<in> set types
      \<and> (sum_requires_same_params args \<longrightarrow>
           \<not> f32_ne (sum_scale (arg_post_ops args ! idx)) (canonical_sum_scale (arg_post_ops args))
           \<and> sum_zero_point (arg_post_ops args ! idx) = canonical_sum_zero_point (arg_post_ops args))
      \<and> (sum_requires_scale_one args \<longrightarrow> \<not> f32_ne (sum_scale (arg_post_ops args ! idx)) (F_fin 1))
      \<and> (sum_requires_zp_zero args \<longrightarrow> sum_zero_point (arg_post_ops args ! idx) = 0)
      \<and> (sum_at_pos_0_only args \<longrightarrow> idx = 0))"
proof (induction types)
  case Nil
  show ?case by simp
next
  case (Cons t ts)
  show ?case
    using assms sum_entry_kinds [OF assms] Cons.IH
    by (cases t) (auto simp: Let_def)
qed

lemma find_from_hit:
  "0 \<le> i \<Longrightarrow> \<exists>e \<in> set ps. kind e = k \<Longrightarrow>
   i \<le> find_from k i ps \<and> ps ! nat (find_from k i ps - i) = hd (filter (\<lambda>e. kind e = k) ps)"
proof (induction ps arbitrary: i)
  case Nil
  then show ?case by simp
next
  case (Cons e es)
  show ?case
  proof (cases "kind e = k")
    case True
    then show ?thesis by simp
  next
    case False
    with Cons.prems have ex: "\<exists>e \<in> set es. kind e = k" by auto
    from Cons.IH [of "i + 1", OF _ ex] Cons.prems(1)
    have ih: "i + 1 \<le> find_from k (i + 1) es"
      and nth: "es ! nat (find_from k (i + 1) es - (i + 1)) = hd (filter (\<lambda>e. kind e = k) es)"
      by auto
    have "nat (find_from k (i + 1) es - i) = Suc (nat (find_from k (i + 1) es - (i + 1)))"
      using ih by simp
    with False ih nth show ?thesis by simp
  qed
qed

lemma canonical_is_first_sum:
  assumes "\<exists>e \<in> set ps. is_sum e"
  shows "canonical_sum_scale ps = sum_scale (hd (filter is_sum ps))"
    and "canonical_sum_zero_point ps = sum_zero_point (hd (filter is_sum ps))"
proof -
  from assms have ex: "\<exists>e \<in> set ps. kind e = pk_sum" by (simp add: is_sum_def)
  have eq: "is_sum = (\<lambda>e. kind e = pk_sum)" by (simp add: is_sum_def fun_eq_iff)
  from find_from_hit [of 0 ps pk_sum, OF _ ex]
  have "0 \<le> find_from pk_sum 0 ps"
    and "ps ! nat (find_from pk_sum 0 ps) = hd (filter is_sum ps)"
    by (simp_all add: eq)
  then show "canonical_sum_scale ps = sum_scale (hd (filter is_sum ps))"
    and "canonical_sum_zero_point ps = sum_zero_point (hd (filter is_sum ps))"
    by (simp_all add: canonical_sum_scale_def canonical_sum_zero_point_def find_kind_def Let_def)
qed

text \<open>
  C3 (as amended). A sum entry at index \<open>idx\<close> is accepted by the checker's
  \<^verbatim>\<open>is_accepted_postop\<close> exactly when \<^verbatim>\<open>sum\<close> is among the caller's accepted post-op
  types and, under the same-params policy, its scale and zero point equal those of
  the chain's first sum entry, under the scale-must-be-one policy its scale is 1, under
  the zero-point-must-be-zero policy its zero point is 0, and under the
  sum-at-position-0-only policy \<open>idx\<close> is 0. So, with \<^verbatim>\<open>sum\<close> accepted, a specified
  destination layout and the other three policies inactive, the chain
  [sum(scale=1.0, zp=0), sum(scale=2.0, zp=0)] is rejected exactly when same-params is
  active.
\<close>

theorem sum_entry_accepted_iff:
  assumes "idx < length (arg_post_ops args)"
      and "arg_post_ops args ! idx = sum_e s z"
  shows "(is_accepted_postop esup src1 bsup args dst idx \<longleftrightarrow>
       sum_type \<in> set (accepted_post_op_types args)
       \<and> (sum_requires_same_params args \<longrightarrow>
            \<not> f32_ne s (sum_scale (hd (filter is_sum (arg_post_ops args))))
            \<and> z = sum_zero_point (hd (filter is_sum (arg_post_ops args))))
       \<and> (sum_requires_scale_one args \<longrightarrow> \<not> f32_ne s (F_fin 1))
       \<and> (sum_requires_zp_zero args \<longrightarrow> z = 0)
       \<and> (sum_at_pos_0_only args \<longrightarrow> idx = 0))
   \<and> (sum_type \<in> set types \<and> format_kind dst' \<noteq> dnnl_format_kind_any \<longrightarrow>
       (post_ops_ok esup src1 bsup
          \<lparr> arg_isa = isa, accepted_post_op_types = types,
            arg_post_ops = [sum_e (F_fin 1) 0, sum_e (F_fin 2) 0],
            dst_d = Some dst', sum_at_pos_0_only = False, sum_requires_scale_one = False,
            sum_requires_zp_zero = False, sum_requires_same_params = same,
            enabled_bcast_strategy = bc \<rparr> \<longleftrightarrow> \<not> same))"
proof (intro conjI impI)
  have s: "is_sum (arg_post_ops args ! idx)"
    using assms(2) by (simp add: is_sum_def)
  have "arg_post_ops args ! idx \<in> set (arg_post_ops args)"
    using assms(1) by simp
  with s have ex: "\<exists>e \<in> set (arg_post_ops args). is_sum e" by blast
  show "is_accepted_postop esup src1 bsup args dst idx \<longleftrightarrow>
       sum_type \<in> set (accepted_post_op_types args)
       \<and> (sum_requires_same_params args \<longrightarrow>
            \<not> f32_ne s (sum_scale (hd (filter is_sum (arg_post_ops args))))
            \<and> z = sum_zero_point (hd (filter is_sum (arg_post_ops args))))
       \<and> (sum_requires_scale_one args \<longrightarrow> \<not> f32_ne s (F_fin 1))
       \<and> (sum_requires_zp_zero args \<longrightarrow> z = 0)
       \<and> (sum_at_pos_0_only args \<longrightarrow> idx = 0)"
    unfolding is_accepted_postop_def is_accepted_loop_sum [OF s]
      canonical_is_first_sum [OF ex]
    by (simp add: assms(2))
next
  let ?args = "\<lparr> arg_isa = isa, accepted_post_op_types = types,
            arg_post_ops = [sum_e (F_fin 1) 0, sum_e (F_fin 2) 0],
            dst_d = Some dst', sum_at_pos_0_only = False, sum_requires_scale_one = False,
            sum_requires_zp_zero = False, sum_requires_same_params = same,
            enabled_bcast_strategy = bc \<rparr>"
  assume h: "sum_type \<in> set types \<and> format_kind dst' \<noteq> dnnl_format_kind_any"
  have s0: "is_sum (arg_post_ops ?args ! 0)" and s1: "is_sum (arg_post_ops ?args ! 1)"
    by (simp_all add: is_sum_def)
  have ex: "\<exists>e \<in> set (arg_post_ops ?args). is_sum e"
    by (simp add: is_sum_def)
  have upt2: "[0..<2] = [0, Suc 0]"
    by (simp add: upt_rec)
  show "post_ops_ok esup src1 bsup ?args \<longleftrightarrow> \<not> same"
    using h is_accepted_loop_sum [OF s0, of esup src1 bsup dst' types]
      is_accepted_loop_sum [OF s1, of esup src1 bsup dst' types]
      canonical_is_first_sum [OF ex]
    by (auto simp: post_ops_ok_def is_accepted_postop_def upt2 is_sum_def f32_ne_def)
qed

theorem sum_entry_accepted_iff_witness:
  "2 < length [sum_e (F_fin 1) 0, eltwise_e (alg_kind_other 0) (F_fin 0) (F_fin 0), sum_e (F_fin 2) 0]
   \<and> [sum_e (F_fin 1) 0, eltwise_e (alg_kind_other 0) (F_fin 0) (F_fin 0), sum_e (F_fin 2) 0] ! 2
       = sum_e (F_fin 2) 0
   \<and> \<not> is_accepted_postop (\<lambda>i a d. True) (\<lambda>e d. 0) (\<lambda>i s d b. True)
       \<lparr> arg_isa = avx2, accepted_post_op_types = [eltwise_type, sum_type],
         arg_post_ops = [sum_e (F_fin 1) 0, eltwise_e (alg_kind_other 0) (F_fin 0) (F_fin 0),
                         sum_e (F_fin 2) 0],
         dst_d = Some \<lparr> format_kind = dnnl_blocked, md_id = 0 \<rparr>,
         sum_at_pos_0_only = False, sum_requires_scale_one = False,
         sum_requires_zp_zero = False, sum_requires_same_params = True,
         enabled_bcast_strategy = [] \<rparr>
       \<lparr> format_kind = dnnl_blocked, md_id = 0 \<rparr> 2
   \<and> \<not> post_ops_ok (\<lambda>i a d. True) (\<lambda>e d. 0) (\<lambda>i s d b. True)
       \<lparr> arg_isa = avx2, accepted_post_op_types = [sum_type],
         arg_post_ops = [sum_e (F_fin 1) 0, sum_e (F_fin 2) 0],
         dst_d = Some \<lparr> format_kind = dnnl_blocked, md_id = 0 \<rparr>,
         sum_at_pos_0_only = False, sum_requires_scale_one = False,
         sum_requires_zp_zero = False, sum_requires_same_params = True,
         enabled_bcast_strategy = [] \<rparr>"
  using sum_entry_accepted_iff
    [of 2 "\<lparr> arg_isa = avx2, accepted_post_op_types = [eltwise_type, sum_type],
         arg_post_ops = [sum_e (F_fin 1) 0, eltwise_e (alg_kind_other 0) (F_fin 0) (F_fin 0),
                         sum_e (F_fin 2) 0],
         dst_d = Some \<lparr> format_kind = dnnl_blocked, md_id = 0 \<rparr>,
         sum_at_pos_0_only = False, sum_requires_scale_one = False,
         sum_requires_zp_zero = False, sum_requires_same_params = True,
         enabled_bcast_strategy = [] \<rparr>" "F_fin 2" 0
       "\<lambda>i a d. True" "\<lambda>e d. 0" "\<lambda>i s d b. True" "\<lparr> format_kind = dnnl_blocked, md_id = 0 \<rparr>"
       "[sum_type]" "\<lparr> format_kind = dnnl_blocked, md_id = 0 \<rparr>" avx2 True "[]"]
  by (simp add: is_sum_def f32_ne_def)

theorem sum_entry_accepted_counterexample:
  "\<not> (is_accepted_postop (\<lambda>i a d. True) (\<lambda>e d. 0) (\<lambda>i s d b. True)
       \<lparr> arg_isa = avx2, accepted_post_op_types = [eltwise_type],
         arg_post_ops = [sum_e (F_fin 1) 0],
         dst_d = Some \<lparr> format_kind = dnnl_blocked, md_id = 0 \<rparr>,
         sum_at_pos_0_only = False, sum_requires_scale_one = False,
         sum_requires_zp_zero = False, sum_requires_same_params = False,
         enabled_bcast_strategy = [] \<rparr>
       \<lparr> format_kind = dnnl_blocked, md_id = 0 \<rparr> 0
      \<longleftrightarrow> (False \<longrightarrow> \<not> f32_ne (F_fin 1) (F_fin 1) \<and> (0::int) = 0)
         \<and> (False \<longrightarrow> \<not> f32_ne (F_fin 1) (F_fin 1))
         \<and> (False \<longrightarrow> (0::int) = 0)
         \<and> (False \<longrightarrow> (0::nat) = 0))
   \<and> \<not> (\<not> post_ops_ok (\<lambda>i a d. True) (\<lambda>e d. 0) (\<lambda>i s d b. True)
       \<lparr> arg_isa = avx2, accepted_post_op_types = [sum_type],
         arg_post_ops = [sum_e (F_fin 1) 0, sum_e (F_fin 2) 0],
         dst_d = Some \<lparr> format_kind = dnnl_blocked, md_id = 0 \<rparr>,
         sum_at_pos_0_only = False, sum_requires_scale_one = True,
         sum_requires_zp_zero = False, sum_requires_same_params = False,
         enabled_bcast_strategy = [] \<rparr>
      \<longleftrightarrow> False)"
  by (simp add: post_ops_ok_def is_accepted_postop_def is_kind_defs f32_ne_def upt_rec)

section \<open>Properties of the constructor\<close>

lemma emplace_new: "k \<notin> fst ` set m \<Longrightarrow> emplace k v m = m @ [(k, v)]"
  by (simp add: emplace_def)

lemma elt_pairs_keys: "fst ` set (elt_pairs isa esp ps n) = {i. i < n \<and> is_eltwise (ps ! i)}"
  by (auto simp: elt_pairs_def image_iff)

lemma filter_take_Suc:
  "n < length ps \<Longrightarrow> filter P (take (Suc n) ps) = filter P (take n ps) @ (if P (ps ! n) then [ps ! n] else [])"
  by (simp add: take_Suc_conv_app_nth)

lemma length_elt_pairs:
  "n \<le> length ps \<Longrightarrow> length (elt_pairs isa esp ps n) = length (filter is_eltwise (take n ps))"
proof (induction n)
  case 0
  show ?case by (simp add: elt_pairs_def)
next
  case (Suc n)
  then show ?case by (simp add: elt_pairs_def filter_take_Suc)
qed

lemma entry_kinds_excl:
  "is_eltwise e \<Longrightarrow> \<not> is_like_binary e \<and> \<not> is_depthwise e \<and> \<not> is_quantization e"
  "is_like_binary e \<Longrightarrow> \<not> is_depthwise e \<and> \<not> is_quantization e"
  "is_depthwise e \<Longrightarrow> \<not> is_quantization e"
  by (auto simp: is_kind_defs)

lemma ctor_steps_inv:
  assumes "m_alg_to_eltwise_injector (cs_inj st) = []" and "n \<le> length ps"
  shows "m_alg_to_eltwise_injector (cs_inj (ctor_steps isa esp qsp ps st n)) = elt_pairs isa esp ps n
   \<and> depthwise_injectors (cs_inj (ctor_steps isa esp qsp ps st n)) =
       depthwise_injectors (cs_inj st)
         @ map (jit_uni_depthwise_injector_f32 isa) (filter is_depthwise (take n ps))
   \<and> quantization_injectors (cs_inj (ctor_steps isa esp qsp ps st n)) =
       quantization_injectors (cs_inj st)
         @ map (\<lambda>e. jit_uni_quantization_injector_f32 isa e qsp) (filter is_quantization (take n ps))
   \<and> cs_is_like_binary (ctor_steps isa esp qsp ps st n) =
       (cs_is_like_binary st \<or> (\<exists>e \<in> set (take n ps). is_like_binary e))
   \<and> cs_is_eltwise (ctor_steps isa esp qsp ps st n) =
       (cs_is_eltwise st \<or> (\<exists>e \<in> set (take n ps). is_eltwise e))
   \<and> m_post_ops (cs_inj (ctor_steps isa esp qsp ps st n)) = m_post_ops (cs_inj st)
   \<and> m_binary_injector (cs_inj (ctor_steps isa esp qsp ps st n)) = m_binary_injector (cs_inj st)
   \<and> m_lambda_jit_injectors (cs_inj (ctor_steps isa esp qsp ps st n)) = m_lambda_jit_injectors (cs_inj st)
   \<and> post_ops_pointers_count (cs_inj (ctor_steps isa esp qsp ps st n)) = post_ops_pointers_count (cs_inj st)
   \<and> inj_isa (cs_inj (ctor_steps isa esp qsp ps st n)) = inj_isa (cs_inj st)"
  using assms(2)
proof (induction n)
  case 0
  show ?case by (simp add: elt_pairs_def assms(1))
next
  case (Suc n)
  then have n: "n < length ps" and ih: "n \<le> length ps" by simp_all
  note IH = Suc.IH [OF ih]
  let ?s = "ctor_steps isa esp qsp ps st n"
  have new: "emplace n v (elt_pairs isa esp ps n) = elt_pairs isa esp ps n @ [(n, v)]" for v
    by (rule emplace_new) (simp add: elt_pairs_keys)
  have ep: "elt_pairs isa esp ps (Suc n) = elt_pairs isa esp ps n
       @ (if is_eltwise (ps ! n) then [(n, jit_uni_eltwise_injector isa (ps ! n) dnnl_f32 esp)] else [])"
    by (simp add: elt_pairs_def)
  have tk: "take (Suc n) ps = take n ps @ [ps ! n]"
    using n by (simp add: take_Suc_conv_app_nth)
  show ?case
    using IH entry_kinds_excl [of "ps ! n"]
    by (auto simp: ctor_body_def Let_def new ep tk)
qed

lemma ctor_loop_init:
  fixes isa esp qsp ps lam
  defines "st \<equiv> ctor_loop isa esp qsp
     \<lparr> cs_inj = init_injector isa ps lam, cs_is_like_binary = False, cs_is_eltwise = False \<rparr> ps"
  shows "cs_inj st =
       \<lparr> inj_isa = isa, m_post_ops = ps,
         m_alg_to_eltwise_injector = elt_pairs isa esp ps (length ps),
         m_binary_injector = None,
         depthwise_injectors = map (jit_uni_depthwise_injector_f32 isa) (filter is_depthwise ps),
         quantization_injectors =
           map (\<lambda>e. jit_uni_quantization_injector_f32 isa e qsp) (filter is_quantization ps),
         m_lambda_jit_injectors = lam, post_ops_pointers_count = 0 \<rparr>"
    and "cs_is_like_binary st = list_ex is_like_binary ps"
    and "cs_is_eltwise st = list_ex is_eltwise ps"
proof -
  let ?st0 = "\<lparr> cs_inj = init_injector isa ps lam, cs_is_like_binary = False, cs_is_eltwise = False \<rparr>"
  have e: "m_alg_to_eltwise_injector (cs_inj ?st0) = []"
    by (simp add: init_injector_def)
  note inv = ctor_steps_inv [OF e order_refl, of isa esp qsp]
  show "cs_inj st = \<lparr> inj_isa = isa, m_post_ops = ps,
         m_alg_to_eltwise_injector = elt_pairs isa esp ps (length ps),
         m_binary_injector = None,
         depthwise_injectors = map (jit_uni_depthwise_injector_f32 isa) (filter is_depthwise ps),
         quantization_injectors =
           map (\<lambda>e. jit_uni_quantization_injector_f32 isa e qsp) (filter is_quantization ps),
         m_lambda_jit_injectors = lam, post_ops_pointers_count = 0 \<rparr>"
    using inv by (simp add: st_def ctor_loop_def init_injector_def)
  show "cs_is_like_binary st = list_ex is_like_binary ps"
    using inv by (simp add: st_def ctor_loop_def list_ex_iff)
  show "cs_is_eltwise st = list_ex is_eltwise ps"
    using inv by (simp add: st_def ctor_loop_def list_ex_iff)
qed

lemma new_injector_result:
  "new_jit_uni_postops_injector_t ndebug isup isa ps bsp esp qsp lam =
     (if \<not> ndebug \<and> mask_conflict isup isa ps bsp esp
      then Inl (Assertion_failed ''Binary and prelu tail opmask should be different than eltwise injector opmask.'')
      else Inr \<lparr> inj_isa = isa, m_post_ops = ps,
         m_alg_to_eltwise_injector = elt_pairs isa esp ps (length ps),
         m_binary_injector =
           (if list_ex is_like_binary ps then Some (jit_uni_binary_injector_t isa bsp) else None),
         depthwise_injectors = map (jit_uni_depthwise_injector_f32 isa) (filter is_depthwise ps),
         quantization_injectors =
           map (\<lambda>e. jit_uni_quantization_injector_f32 isa e qsp) (filter is_quantization ps),
         m_lambda_jit_injectors = lam, post_ops_pointers_count = 0 \<rparr>)"
  unfolding new_jit_uni_postops_injector_t_def Let_def ctor_loop_init mask_conflict_def
  by auto

lemma length_by_kind:
  "length ps = length (filter is_eltwise ps) + length (filter is_like_binary ps)
     + length (filter is_depthwise ps) + length (filter is_quantization ps)
     + length (filter (\<lambda>e. is_sum e \<or> kind e = pk_convolution) ps)"
proof (induction ps)
  case Nil
  show ?case by simp
next
  case (Cons e es)
  then show ?case by (cases e) (simp_all add: is_kind_defs)
qed

text \<open>
  C4 (as amended). For every chain accepted by \<^verbatim>\<open>post_ops_ok\<close>, the construction of
  the orchestrating injector succeeds unless the assertion on the shared tail mask
  fails (it cannot in a build with \<^verbatim>\<open>NDEBUG\<close>), and the injector owns one eltwise
  sub-generator per eltwise entry, one depthwise and one quantization sub-generator per
  such entry, and a single binary sub-generator when the chain has any binary or prelu
  entry. This number never exceeds the length of the chain, and equals it exactly when
  the chain has at most one binary or prelu entry and no sum or convolution entry.
\<close>

theorem ctor_succeeds_with_sub_generators:
  assumes "post_ops_ok esup src1 bsup args"
      and "ndebug \<or> \<not> mask_conflict isup (arg_isa args) (arg_post_ops args) bsp esp"
  shows "\<exists>obj. new_jit_uni_postops_injector_t ndebug isup (arg_isa args) (arg_post_ops args)
             bsp esp qsp lam = Inr obj
     \<and> sub_generator_count obj =
         length (filter is_eltwise (arg_post_ops args))
         + (if list_ex is_like_binary (arg_post_ops args) then 1 else 0)
         + length (filter is_depthwise (arg_post_ops args))
         + length (filter is_quantization (arg_post_ops args))
     \<and> sub_generator_count obj \<le> length (arg_post_ops args)
     \<and> (sub_generator_count obj = length (arg_post_ops args) \<longleftrightarrow>
          length (filter is_like_binary (arg_post_ops args)) \<le> 1
          \<and> \<not> list_ex (\<lambda>e. is_sum e \<or> kind e = pk_convolution) (arg_post_ops args))"
proof -
  let ?ps = "arg_post_ops args"
  have b: "(if list_ex is_like_binary ?ps then 1 else 0) \<le> length (filter is_like_binary ?ps)"
    by (auto simp: list_ex_iff Suc_le_eq length_pos_if_in_set filter_empty_conv)
  have b1: "list_ex is_like_binary ?ps \<longleftrightarrow> 0 < length (filter is_like_binary ?ps)"
    by (auto simp: list_ex_iff filter_empty_conv)
  have s: "\<not> list_ex (\<lambda>e. is_sum e \<or> kind e = pk_convolution) ?ps \<longleftrightarrow>
     length (filter (\<lambda>e. is_sum e \<or> kind e = pk_convolution) ?ps) = 0"
    by (auto simp: list_ex_iff filter_empty_conv)
  show ?thesis
    unfolding new_injector_result using assms(2) length_by_kind [of ?ps] b
    by (auto simp: sub_generator_count_def length_elt_pairs s b1)
qed

theorem ctor_succeeds_with_sub_generators_witness:
  "post_ops_ok (\<lambda>i a d. True) (\<lambda>e d. 0) (\<lambda>i s d b. True)
       \<lparr> arg_isa = avx2, accepted_post_op_types = [sum_type, eltwise_type, binary_type, depthwise_type],
         arg_post_ops = [sum_e (F_fin 1) 0, eltwise_e (alg_kind_other 0) (F_fin 0) (F_fin 0),
            binary_e (alg_kind_other 1) 0, binary_e (alg_kind_other 1) 1, depthwise_e depthwise_prelu],
         dst_d = Some \<lparr> format_kind = dnnl_blocked, md_id = 0 \<rparr>,
         sum_at_pos_0_only = True, sum_requires_scale_one = False,
         sum_requires_zp_zero = False, sum_requires_same_params = False,
         enabled_bcast_strategy = [] \<rparr>
   \<and> (\<exists>obj. new_jit_uni_postops_injector_t False (\<lambda>a b. a = b) avx2
         [sum_e (F_fin 1) 0, eltwise_e (alg_kind_other 0) (F_fin 0) (F_fin 0),
            binary_e (alg_kind_other 1) 0, binary_e (alg_kind_other 1) 1, depthwise_e depthwise_prelu]
         \<lparr> bsp_param1 = 0, rhs_arg_static_params = \<lparr> rhs_tail_size = 0, rhs_tail_opmask = 1 \<rparr> \<rparr>
         \<lparr> esp_save_state = True, esp_p_table = 0, esp_k_mask = 1, esp_is_fwd = True,
           esp_use_dst = False, esp_preserve_vmm = True, esp_preserve_p_table = True \<rparr>
         \<lparr> qsp_vmm_d_weights_idx = 0, qsp_vmm_d_bias_idx = 0, qsp_reg_d_weights = 0, qsp_reg_d_bias = 0 \<rparr>
         Map.empty = Inr obj
       \<and> sub_generator_count obj = 3)"
  using ctor_succeeds_with_sub_generators
    [of "\<lambda>i a d. True" "\<lambda>e d. 0" "\<lambda>i s d b. True"
       "\<lparr> arg_isa = avx2, accepted_post_op_types = [sum_type, eltwise_type, binary_type, depthwise_type],
         arg_post_ops = [sum_e (F_fin 1) 0, eltwise_e (alg_kind_other 0) (F_fin 0) (F_fin 0),
            binary_e (alg_kind_other 1) 0, binary_e (alg_kind_other 1) 1, depthwise_e depthwise_prelu],
         dst_d = Some \<lparr> format_kind = dnnl_blocked, md_id = 0 \<rparr>,
         sum_at_pos_0_only = True, sum_requires_scale_one = False,
         sum_requires_zp_zero = False, sum_requires_same_params = False,
         enabled_bcast_strategy = [] \<rparr>"
       False "\<lambda>a b. a = b"
       "\<lparr> bsp_param1 = 0, rhs_arg_static_params = \<lparr> rhs_tail_size = 0, rhs_tail_opmask = 1 \<rparr> \<rparr>"
       "\<lparr> esp_save_state = True, esp_p_table = 0, esp_k_mask = 1, esp_is_fwd = True,
           esp_use_dst = False, esp_preserve_vmm = True, esp_preserve_p_table = True \<rparr>"
       "\<lparr> qsp_vmm_d_weights_idx = 0, qsp_vmm_d_bias_idx = 0, qsp_reg_d_weights = 0, qsp_reg_d_bias = 0 \<rparr>"
       Map.empty]
  by (auto simp add: post_ops_ok_def is_accepted_postop_def is_kind_defs f32_ne_def upt_rec
      mask_conflict_def numeral_3_eq_3)

theorem ctor_sub_generator_count_counterexample:
  "post_ops_ok (\<lambda>i a d. True) (\<lambda>e d. 0) (\<lambda>i s d b. True)
       \<lparr> arg_isa = avx2, accepted_post_op_types = [sum_type],
         arg_post_ops = [sum_e (F_fin 1) 0],
         dst_d = Some \<lparr> format_kind = dnnl_blocked, md_id = 0 \<rparr>,
         sum_at_pos_0_only = False, sum_requires_scale_one = False,
         sum_requires_zp_zero = False, sum_requires_same_params = False,
         enabled_bcast_strategy = [] \<rparr>
   \<and> \<not> (\<exists>obj. new_jit_uni_postops_injector_t False (\<lambda>a b. a = b) avx2 [sum_e (F_fin 1) 0]
         \<lparr> bsp_param1 = 0, rhs_arg_static_params = \<lparr> rhs_tail_size = 0, rhs_tail_opmask = 1 \<rparr> \<rparr>
         \<lparr> esp_save_state = True, esp_p_table = 0, esp_k_mask = 1, esp_is_fwd = True,
           esp_use_dst = False, esp_preserve_vmm = True, esp_preserve_p_table = True \<rparr>
         \<lparr> qsp_vmm_d_weights_idx = 0, qsp_vmm_d_bias_idx = 0, qsp_reg_d_weights = 0, qsp_reg_d_bias = 0 \<rparr>
         Map.empty = Inr obj
       \<and> sub_generator_count obj = length [sum_e (F_fin 1) 0])"
  by (simp add: post_ops_ok_def is_accepted_postop_def is_kind_defs f32_ne_def upt_rec
      new_jit_uni_postops_injector_t_def ctor_loop_def ctor_body_def init_injector_def
      sub_generator_count_def Let_def)

section \<open>Properties of the factory\<close>

lemma new_ptr_not_null: "new_ptr r \<noteq> Inr None"
  by (cases r) (simp_all add: new_ptr_def)

lemma create_Zmm_by_priority:
  "create_Zmm ndebug isup mayiuse dq isa ps bsp esp =
   create_by_priority tiers_Zmm ndebug isup mayiuse dq isa ps bsp esp"
  by (cases isa) (simp_all add: create_Zmm_def create_by_priority_def tiers_Zmm_def)

lemma create_Ymm_by_priority:
  "create_Ymm ndebug isup mayiuse dq isa ps bsp esp =
   create_by_priority tiers_Ymm ndebug isup mayiuse dq isa ps bsp esp"
  by (cases isa) (simp_all add: create_Ymm_def create_by_priority_def tiers_Ymm_def)

lemma create_Xmm_by_priority:
  "create_Xmm ndebug isup mayiuse dq isa ps bsp esp =
   create_by_priority tiers_Xmm ndebug isup mayiuse dq isa ps bsp esp"
  by (cases isa) (simp_all add: create_Xmm_def create_by_priority_def tiers_Xmm_def)

lemma find_Some_in_set: "List.find P xs = Some x \<Longrightarrow> x \<in> set xs \<and> P x"
  by (induction xs) (auto split: if_splits)

lemma create_by_priority_null:
  "create_by_priority tiers ndebug isup mayiuse dq isa ps bsp esp = Inr None \<longleftrightarrow>
     ndebug \<and> isa \<notin> set tiers \<and> \<not> list_ex mayiuse tiers"
  by (auto simp: create_by_priority_def new_ptr_not_null kernel_is_empty_def list_ex_iff
      find_None_iff split: option.splits dest: find_Some_in_set)

lemma create_by_priority_empty:
  assumes "isa \<notin> set tiers" and "\<not> list_ex mayiuse tiers"
  shows "create_by_priority tiers ndebug isup mayiuse dq isa ps bsp esp = kernel_is_empty ndebug"
proof -
  from assms(2) have "List.find mayiuse tiers = None"
    by (simp add: find_None_iff list_ex_iff)
  with assms(1) show ?thesis
    by (simp add: create_by_priority_def)
qed

text \<open>
  C5 (as amended). Each specialisation of \<^verbatim>\<open>create\<close> (shown for \<^verbatim>\<open>Ymm\<close>, and the same
  for \<^verbatim>\<open>Zmm\<close> and \<^verbatim>\<open>Xmm\<close> with their lists) tries the requested ISA against its
  priority-ordered list first and then instantiates for that ISA; when the requested
  ISA is not in the list it instantiates for the first tier of the same list that the
  CPU supports. When the requested ISA is not in the list and the CPU supports no tier
  of it, the factory returns the null pointer in a build with \<^verbatim>\<open>NDEBUG\<close>, and with
  assertions enabled it fails the assertion \<^verbatim>\<open>"Kernel is empty!"\<close> instead of returning.
  So the null pointer is returned exactly when assertions are compiled out, the
  requested ISA is not in the list and no tier of the list is usable.
\<close>

theorem create_exact_match_then_priority:
  "create_Ymm ndebug isup mayiuse dq isa ps bsp esp =
     create_by_priority tiers_Ymm ndebug isup mayiuse dq isa ps bsp esp
   \<and> create_Zmm ndebug isup mayiuse dq isa ps bsp esp =
     create_by_priority tiers_Zmm ndebug isup mayiuse dq isa ps bsp esp
   \<and> create_Xmm ndebug isup mayiuse dq isa ps bsp esp =
     create_by_priority tiers_Xmm ndebug isup mayiuse dq isa ps bsp esp
   \<and> (isa \<in> set tiers_Ymm \<longrightarrow>
        create_Ymm ndebug isup mayiuse dq isa ps bsp esp =
        new_ptr (new_injector_bsp_esp ndebug isup dq isa ps bsp esp))
   \<and> (isa \<notin> set tiers_Ymm \<and> List.find mayiuse tiers_Ymm = Some t \<longrightarrow>
        create_Ymm ndebug isup mayiuse dq isa ps bsp esp =
        new_ptr (new_injector_bsp_esp ndebug isup dq t ps bsp esp))
   \<and> (isa \<notin> set tiers_Ymm \<and> \<not> list_ex mayiuse tiers_Ymm \<longrightarrow>
        create_Ymm ndebug isup mayiuse dq isa ps bsp esp =
        (if ndebug then Inr None else Inl (Assertion_failed ''Kernel is empty!'')))
   \<and> (isa \<notin> set tiers_Zmm \<and> \<not> list_ex mayiuse tiers_Zmm \<longrightarrow>
        create_Zmm ndebug isup mayiuse dq isa ps bsp esp =
        (if ndebug then Inr None else Inl (Assertion_failed ''Kernel is empty!'')))
   \<and> (isa \<notin> set tiers_Xmm \<and> \<not> list_ex mayiuse tiers_Xmm \<longrightarrow>
        create_Xmm ndebug isup mayiuse dq isa ps bsp esp =
        (if ndebug then Inr None else Inl (Assertion_failed ''Kernel is empty!'')))
   \<and> (create_Ymm ndebug isup mayiuse dq isa ps bsp esp = Inr None \<longleftrightarrow>
        ndebug \<and> isa \<notin> set tiers_Ymm \<and> \<not> list_ex mayiuse tiers_Ymm)
   \<and> (create_Zmm ndebug isup mayiuse dq isa ps bsp esp = Inr None \<longleftrightarrow>
        ndebug \<and> isa \<notin> set tiers_Zmm \<and> \<not> list_ex mayiuse tiers_Zmm)
   \<and> (create_Xmm ndebug isup mayiuse dq isa ps bsp esp = Inr None \<longleftrightarrow>
        ndebug \<and> isa \<notin> set tiers_Xmm \<and> \<not> list_ex mayiuse tiers_Xmm)"
proof -
  have empty: "isa \<notin> set tiers \<and> \<not> list_ex mayiuse tiers \<longrightarrow>
      create_by_priority tiers ndebug isup mayiuse dq isa ps bsp esp =
      (if ndebug then Inr None else Inl (Assertion_failed ''Kernel is empty!''))" for tiers
    using create_by_priority_empty [of isa tiers mayiuse ndebug isup dq ps bsp esp]
    by (simp add: kernel_is_empty_def)
  have exact: "isa \<in> set tiers_Ymm \<longrightarrow>
      create_by_priority tiers_Ymm ndebug isup mayiuse dq isa ps bsp esp =
      new_ptr (new_injector_bsp_esp ndebug isup dq isa ps bsp esp)"
    by (simp add: create_by_priority_def)
  have fallback: "isa \<notin> set tiers_Ymm \<and> List.find mayiuse tiers_Ymm = Some t \<longrightarrow>
      create_by_priority tiers_Ymm ndebug isup mayiuse dq isa ps bsp esp =
      new_ptr (new_injector_bsp_esp ndebug isup dq t ps bsp esp)"
    by (simp add: create_by_priority_def)
  show ?thesis
    unfolding create_Zmm_by_priority create_Ymm_by_priority create_Xmm_by_priority
    by (intro conjI) (rule refl exact fallback empty create_by_priority_null)+
qed

theorem create_exact_match_then_priority_witness:
  "sse41 \<notin> set tiers_Ymm
   \<and> List.find (\<lambda>t. t = avx2 \<or> t = avx \<or> t = sse41) tiers_Ymm = Some avx2
   \<and> create_Ymm True (\<lambda>a b. a = b) (\<lambda>t. t = avx2 \<or> t = avx \<or> t = sse41)
        \<lparr> qsp_vmm_d_weights_idx = 0, qsp_vmm_d_bias_idx = 0, qsp_reg_d_weights = 0, qsp_reg_d_bias = 0 \<rparr>
        sse41 [sum_e (F_fin 1) 0]
        \<lparr> bsp_param1 = 0, rhs_arg_static_params = \<lparr> rhs_tail_size = 0, rhs_tail_opmask = 1 \<rparr> \<rparr>
        \<lparr> esp_save_state = True, esp_p_table = 0, esp_k_mask = 1, esp_is_fwd = True,
          esp_use_dst = False, esp_preserve_vmm = True, esp_preserve_p_table = True \<rparr> =
      new_ptr (new_injector_bsp_esp True (\<lambda>a b. a = b)
        \<lparr> qsp_vmm_d_weights_idx = 0, qsp_vmm_d_bias_idx = 0, qsp_reg_d_weights = 0, qsp_reg_d_bias = 0 \<rparr>
        avx2 [sum_e (F_fin 1) 0]
        \<lparr> bsp_param1 = 0, rhs_arg_static_params = \<lparr> rhs_tail_size = 0, rhs_tail_opmask = 1 \<rparr> \<rparr>
        \<lparr> esp_save_state = True, esp_p_table = 0, esp_k_mask = 1, esp_is_fwd = True,
          esp_use_dst = False, esp_preserve_vmm = True, esp_preserve_p_table = True \<rparr>)
   \<and> avx2 \<in> set tiers_Ymm
   \<and> create_Ymm True (\<lambda>a b. a = b) (\<lambda>t. False)
        \<lparr> qsp_vmm_d_weights_idx = 0, qsp_vmm_d_bias_idx = 0, qsp_reg_d_weights = 0, qsp_reg_d_bias = 0 \<rparr>
        avx2 [sum_e (F_fin 1) 0]
        \<lparr> bsp_param1 = 0, rhs_arg_static_params = \<lparr> rhs_tail_size = 0, rhs_tail_opmask = 1 \<rparr> \<rparr>
        \<lparr> esp_save_state = True, esp_p_table = 0, esp_k_mask = 1, esp_is_fwd = True,
          esp_use_dst = False, esp_preserve_vmm = True, esp_preserve_p_table = True \<rparr> =
      new_ptr (new_injector_bsp_esp True (\<lambda>a b. a = b)
        \<lparr> qsp_vmm_d_weights_idx = 0, qsp_vmm_d_bias_idx = 0, qsp_reg_d_weights = 0, qsp_reg_d_bias = 0 \<rparr>
        avx2 [sum_e (F_fin 1) 0]
        \<lparr> bsp_param1 = 0, rhs_arg_static_params = \<lparr> rhs_tail_size = 0, rhs_tail_opmask = 1 \<rparr> \<rparr>
        \<lparr> esp_save_state = True, esp_p_table = 0, esp_k_mask = 1, esp_is_fwd = True,
          esp_use_dst = False, esp_preserve_vmm = True, esp_preserve_p_table = True \<rparr>)
   \<and> \<not> list_ex (\<lambda>t. False) tiers_Ymm
   \<and> create_Ymm True (\<lambda>a b. a = b) (\<lambda>t. False)
        \<lparr> qsp_vmm_d_weights_idx = 0, qsp_vmm_d_bias_idx = 0, qsp_reg_d_weights = 0, qsp_reg_d_bias = 0 \<rparr>
        sse41 [sum_e (F_fin 1) 0]
        \<lparr> bsp_param1 = 0, rhs_arg_static_params = \<lparr> rhs_tail_size = 0, rhs_tail_opmask = 1 \<rparr> \<rparr>
        \<lparr> esp_save_state = True, esp_p_table = 0, esp_k_mask = 1, esp_is_fwd = True,
          esp_use_dst = False, esp_preserve_vmm = True, esp_preserve_p_table = True \<rparr> = Inr None
   \<and> create_Ymm False (\<lambda>a b. a = b) (\<lambda>t. False)
        \<lparr> qsp_vmm_d_weights_idx = 0, qsp_vmm_d_bias_idx = 0, qsp_reg_d_weights = 0, qsp_reg_d_bias = 0 \<rparr>
        sse41 [sum_e (F_fin 1) 0]
        \<lparr> bsp_param1 = 0, rhs_arg_static_params = \<lparr> rhs_tail_size = 0, rhs_tail_opmask = 1 \<rparr> \<rparr>
        \<lparr> esp_save_state = True, esp_p_table = 0, esp_k_mask = 1, esp_is_fwd = True,
          esp_use_dst = False, esp_preserve_vmm = True, esp_preserve_p_table = True \<rparr> =
      Inl (Assertion_failed ''Kernel is empty!'')"
proof -
  let ?q = "\<lparr> qsp_vmm_d_weights_idx = 0, qsp_vmm_d_bias_idx = 0, qsp_reg_d_weights = 0, qsp_reg_d_bias = 0 \<rparr>"
  let ?b = "\<lparr> bsp_param1 = 0, rhs_arg_static_params = \<lparr> rhs_tail_size = 0, rhs_tail_opmask = 1 \<rparr> \<rparr>"
  let ?e = "\<lparr> esp_save_state = True, esp_p_table = 0, esp_k_mask = 1, esp_is_fwd = True,
          esp_use_dst = False, esp_preserve_vmm = True, esp_preserve_p_table = True \<rparr>"
  let ?m = "\<lambda>t. t = avx2 \<or> t = avx \<or> t = sse41"
  have h1: "sse41 \<notin> set tiers_Ymm" and h2: "List.find ?m tiers_Ymm = Some avx2"
    and h3: "avx2 \<in> set tiers_Ymm" and h4: "\<not> list_ex (\<lambda>t. False) tiers_Ymm"
    by (simp_all add: tiers_Ymm_def)
  from create_exact_match_then_priority
    [of True "\<lambda>a b. a = b" ?m ?q sse41 "[sum_e (F_fin 1) 0]" ?b ?e avx2] h1 h2
  have c1: "create_Ymm True (\<lambda>a b. a = b) ?m ?q sse41 [sum_e (F_fin 1) 0] ?b ?e =
      new_ptr (new_injector_bsp_esp True (\<lambda>a b. a = b) ?q avx2 [sum_e (F_fin 1) 0] ?b ?e)"
    by blast
  from create_exact_match_then_priority
    [of True "\<lambda>a b. a = b" "\<lambda>t. False" ?q avx2 "[sum_e (F_fin 1) 0]" ?b ?e avx2] h3
  have c2: "create_Ymm True (\<lambda>a b. a = b) (\<lambda>t. False) ?q avx2 [sum_e (F_fin 1) 0] ?b ?e =
      new_ptr (new_injector_bsp_esp True (\<lambda>a b. a = b) ?q avx2 [sum_e (F_fin 1) 0] ?b ?e)"
    by blast
  from create_exact_match_then_priority
    [of True "\<lambda>a b. a = b" "\<lambda>t. False" ?q sse41 "[sum_e (F_fin 1) 0]" ?b ?e avx2] h1 h4
  have "create_Ymm True (\<lambda>a b. a = b) (\<lambda>t. False) ?q sse41 [sum_e (F_fin 1) 0] ?b ?e =
      (if True then Inr None else Inl (Assertion_failed ''Kernel is empty!''))"
    by blast
  then have c3: "create_Ymm True (\<lambda>a b. a = b) (\<lambda>t. False) ?q sse41 [sum_e (F_fin 1) 0] ?b ?e =
      Inr None"
    by simp
  from create_exact_match_then_priority
    [of False "\<lambda>a b. a = b" "\<lambda>t. False" ?q sse41 "[sum_e (F_fin 1) 0]" ?b ?e avx2] h1 h4
  have "create_Ymm False (\<lambda>a b. a = b) (\<lambda>t. False) ?q sse41 [sum_e (F_fin 1) 0] ?b ?e =
      (if False then Inr None else Inl (Assertion_failed ''Kernel is empty!''))"
    by blast
  then have c4: "create_Ymm False (\<lambda>a b. a = b) (\<lambda>t. False) ?q sse41 [sum_e (F_fin 1) 0] ?b ?e =
      Inl (Assertion_failed ''Kernel is empty!'')"
    by simp
  show ?thesis
    by (intro conjI) (rule h1 h2 h3 h4 c1 c2 c3 c4)+
qed

theorem create_null_counterexample:
  "sse41 \<notin> set tiers_Ymm
   \<and> \<not> list_ex (\<lambda>t. False) tiers_Ymm
   \<and> create_Ymm False (\<lambda>a b. a = b) (\<lambda>t. False)
        \<lparr> qsp_vmm_d_weights_idx = 0, qsp_vmm_d_bias_idx = 0, qsp_reg_d_weights = 0, qsp_reg_d_bias = 0 \<rparr>
        sse41 [sum_e (F_fin 1) 0]
        \<lparr> bsp_param1 = 0, rhs_arg_static_params = \<lparr> rhs_tail_size = 0, rhs_tail_opmask = 1 \<rparr> \<rparr>
        \<lparr> esp_save_state = True, esp_p_table = 0, esp_k_mask = 1, esp_is_fwd = True,
          esp_use_dst = False, esp_preserve_vmm = True, esp_preserve_p_table = True \<rparr> =
      Inl (Assertion_failed ''Kernel is empty!'')
   \<and> create_Ymm False (\<lambda>a b. a = b) (\<lambda>t. False)
        \<lparr> qsp_vmm_d_weights_idx = 0, qsp_vmm_d_bias_idx = 0, qsp_reg_d_weights = 0, qsp_reg_d_bias = 0 \<rparr>
        sse41 [sum_e (F_fin 1) 0]
        \<lparr> bsp_param1 = 0, rhs_arg_static_params = \<lparr> rhs_tail_size = 0, rhs_tail_opmask = 1 \<rparr> \<rparr>
        \<lparr> esp_save_state = True, esp_p_table = 0, esp_k_mask = 1, esp_is_fwd = True,
          esp_use_dst = False, esp_preserve_vmm = True, esp_preserve_p_table = True \<rparr> \<noteq> Inr None"
  by (simp add: tiers_Ymm_def create_Ymm_def kernel_is_empty_def)

section \<open>Properties of \<^verbatim>\<open>compute_vector_range\<close>\<close>

lemma at_all_total:
  "list_all (\<lambda>k. m k \<noteq> None) ks \<Longrightarrow> \<exists>kvs. at_all m ks = Inr kvs"
  by (induction ks) (auto simp: map_at_def)

lemma nth_filter_take:
  assumes "k < length ps" and "P (ps ! k)"
  shows "length (filter P (take k ps)) < length (filter P ps)"
    and "filter P ps ! length (filter P (take k ps)) = ps ! k"
proof -
  have ps: "ps = take k ps @ ps ! k # drop (Suc k) ps"
    using assms(1) by (rule id_take_nth_drop)
  have f: "filter P ps = filter P (take k ps) @ ps ! k # filter P (drop (Suc k) ps)"
    by (subst ps) (simp add: assms(2))
  show "length (filter P (take k ps)) < length (filter P ps)"
    by (subst f) simp
  show "filter P ps ! length (filter P (take k ps)) = ps ! k"
    by (subst f) (simp add: nth_append)
qed

lemma cvr_step_eltwise:
  assumes "well_formed obj isa qsp" "i < length (m_post_ops obj)" "is_eltwise (m_post_ops obj ! i)"
  shows "\<exists>ei. cvr_body dw q obj vmm_idxs rhs ddp qdp bc st i =
     Inr (st \<lparr> calls := calls st @ [Eltwise_compute_vector_range ei vmm_idxs] \<rparr>)"
proof -
  from assms have "i \<in> fst ` set (m_alg_to_eltwise_injector obj)"
    by (simp add: well_formed_def)
  then obtain ei where "map_of (m_alg_to_eltwise_injector obj) i = Some ei"
    by (metis map_of_eq_None_iff not_Some_eq)
  then show ?thesis
    using assms(3) by (auto simp: cvr_body_def cvr_eltwise_def map_at_def)
qed

lemma cvr_step_binary:
  assumes "well_formed obj isa qsp" "i < length (m_post_ops obj)" "is_like_binary (m_post_ops obj ! i)"
  shows "\<exists>bi. cvr_body dw q obj vmm_idxs rhs ddp qdp bc st i =
     Inr (st \<lparr> calls := calls st
               @ [Binary_compute_vector_range bi vmm_idxs (rhs_arg_idx st) (m_post_ops obj ! i) rhs],
             rhs_arg_idx := rhs_arg_idx st + 1 \<rparr>)"
proof -
  have "m_post_ops obj ! i \<in> set (m_post_ops obj)"
    using assms(2) by simp
  with assms(3) have "list_ex is_like_binary (m_post_ops obj)"
    by (auto simp: list_ex_iff)
  with assms(1) obtain bi where "m_binary_injector obj = Some bi"
    by (auto simp: well_formed_def)
  moreover have "\<not> is_eltwise (m_post_ops obj ! i)"
    using assms(3) entry_kinds_excl(1) by blast
  ultimately show ?thesis
    using assms(3) by (auto simp: cvr_body_def cvr_binary_def)
qed

lemma cvr_step_lambda:
  assumes "\<not> is_eltwise (m_post_ops obj ! i)" "\<not> is_like_binary (m_post_ops obj ! i)"
    "\<not> is_depthwise (m_post_ops obj ! i)" "\<not> is_quantization (m_post_ops obj ! i)"
  shows "cvr_body dw q obj vmm_idxs rhs ddp qdp bc st i =
     Inr (case m_lambda_jit_injectors obj (kind (m_post_ops obj ! i)) of
            None \<Rightarrow> st
          | Some lam \<Rightarrow> st \<lparr> calls := calls st @ [Lambda_call lam] \<rparr>)"
  using assms by (simp add: cvr_body_def cvr_lambda_def split: option.splits)

lemma cvr_step_depthwise:
  assumes wf: "well_formed obj isa qsp" and i: "i < length (m_post_ops obj)"
    and k: "is_depthwise (m_post_ops obj ! i)"
    and idx: "depthwise_inj_idx st = length (filter is_depthwise (take i (m_post_ops obj)))"
    and cov: "list_all (\<lambda>v. ddp_vmm_idx_off ddp v \<noteq> None) vmm_idxs"
  shows "\<exists>st' new. cvr_body dw q obj vmm_idxs rhs ddp qdp bc st i = Inr st'
     \<and> calls st' = calls st @ new
     \<and> depthwise_inj_idx st' = depthwise_inj_idx st + 1
     \<and> quantization_inj_idx st' = quantization_inj_idx st
     \<and> post_ops_data_offset st' = post_ops_data_offset st
          + dw (jit_uni_depthwise_injector_f32 isa (m_post_ops obj ! i))"
proof -
  let ?ps = "m_post_ops obj"
  have di: "depthwise_injectors obj = map (jit_uni_depthwise_injector_f32 isa) (filter is_depthwise ?ps)"
    using wf by (simp add: well_formed_def)
  note n = nth_filter_take [OF i, of is_depthwise, OF k]
  have lt: "depthwise_inj_idx st < length (depthwise_injectors obj)"
    using n(1) by (simp add: di idx)
  have nth: "depthwise_injectors obj ! depthwise_inj_idx st = jit_uni_depthwise_injector_f32 isa (?ps ! i)"
    using n by (simp add: di idx)
  obtain offs where offs: "at_all (ddp_vmm_idx_off ddp) vmm_idxs = Inr offs"
    using at_all_total [OF cov] by blast
  have ex: "\<not> is_eltwise (?ps ! i)" "\<not> is_like_binary (?ps ! i)"
    using k entry_kinds_excl by blast+
  show ?thesis
    using lt ex k by (simp add: cvr_body_def cvr_depthwise_def Let_def offs nth)
qed

lemma rounding_flags_append:
  "rounding_flags (xs @ ys) = rounding_flags xs @ rounding_flags ys"
  by (induction xs rule: rounding_flags.induct) simp_all

lemma rounding_flags_crop:
  "rounding_flags (map (\<lambda>(off, idxs). Quantization_compute_crop qi idxs off a b) sets) = []"
  by (induction sets) auto

lemma rounding_flags_output:
  "rounding_flags (map (\<lambda>(off, idxs). Quantization_compute_output_scale_shift qi idxs off a b) sets) = []"
  by (induction sets) auto

lemma rounding_flags_input:
  "rounding_flags (map (\<lambda>(off, idxs). Quantization_compute_input_scale_shift qi idxs off r a b) sets) =
     replicate (length sets) r"
  by (induction sets) auto

lemma rounding_flags_quantization_calls:
  "rounding_flags (quantization_calls qi base oc sets r bc) = replicate (length sets) r"
  by (simp add: quantization_calls_def rounding_flags_append rounding_flags_crop
      rounding_flags_output rounding_flags_input)

lemma cvr_step_quantization:
  assumes wf: "well_formed obj isa qsp" and i: "i < length (m_post_ops obj)"
    and k: "is_quantization (m_post_ops obj ! i)"
    and idx: "quantization_inj_idx st = length (filter is_quantization (take i (m_post_ops obj)))"
    and offs: "at_all (qdp_vmm_idx_off qdp) vmm_idxs = Inr offs"
  shows "cvr_body dw q obj vmm_idxs rhs ddp qdp bc st i =
     Inr (st \<lparr> calls := calls st
               @ quantization_calls (jit_uni_quantization_injector_f32 isa (m_post_ops obj ! i) qsp)
                   (RegExp (qdp_reg_post_ops_data qdp)
                      (qdp_base_post_ops_data_offset qdp + post_ops_data_offset st))
                   (if qdp_useAddr qdp then Addr (qdp_reg_oc_off_addr qdp)
                    else Reg (qdp_reg_oc_off qdp))
                   (vecOfVmmIdxsSets offs)
                   (quantization_alg (m_post_ops obj ! i) = quantization_quantize_dequantize
                    \<or> qdp_dst_dt qdp = dnnl_f32
                    \<or> int i \<noteq> int (length (m_post_ops obj)) - 1) bc,
             post_ops_data_offset := post_ops_data_offset st
               + q (jit_uni_quantization_injector_f32 isa (m_post_ops obj ! i) qsp),
             rhs_arg_idx := rhs_arg_idx st + 1,
             quantization_inj_idx := quantization_inj_idx st + 1 \<rparr>)"
proof -
  let ?ps = "m_post_ops obj"
  have qi: "quantization_injectors obj =
      map (\<lambda>e. jit_uni_quantization_injector_f32 isa e qsp) (filter is_quantization ?ps)"
    using wf by (simp add: well_formed_def)
  note n = nth_filter_take [OF i, of is_quantization, OF k]
  have lt: "quantization_inj_idx st < length (quantization_injectors obj)"
    using n(1) by (simp add: qi idx)
  have nth: "quantization_injectors obj ! quantization_inj_idx st =
      jit_uni_quantization_injector_f32 isa (?ps ! i) qsp"
    using n by (simp add: qi idx)
  have ex: "\<not> is_eltwise (?ps ! i)" "\<not> is_like_binary (?ps ! i)" "\<not> is_depthwise (?ps ! i)"
    using k entry_kinds_excl by blast+
  have "cvr_body dw q obj vmm_idxs rhs ddp qdp bc st i =
     cvr_quantization q obj vmm_idxs qdp bc st i (m_post_ops obj ! i)"
    using ex k by (simp add: cvr_body_def)
  then show ?thesis
    using lt by (simp add: cvr_quantization_def Let_def offs nth)
qed

lemma cvr_steps_inv:
  assumes wf: "well_formed obj isa qsp"
    and cov: "covered (m_post_ops obj) vmm_idxs ddp qdp"
    and k: "k \<le> length (m_post_ops obj)"
  shows "\<exists>st. cvr_steps dw q obj vmm_idxs rhs ddp qdp bc k = Inr st
     \<and> depthwise_inj_idx st = length (filter is_depthwise (take k (m_post_ops obj)))
     \<and> quantization_inj_idx st = length (filter is_quantization (take k (m_post_ops obj)))
     \<and> post_ops_data_offset st =
         sum_list (map (entry_memoryStep dw q isa qsp) (filter uses_aux_data (take k (m_post_ops obj))))"
  using k
proof (induction k)
  case 0
  show ?case by (simp add: cvr_init_def)
next
  case (Suc k)
  let ?ps = "m_post_ops obj"
  from Suc.prems have lt: "k < length ?ps" by simp
  with Suc.IH obtain st where st: "cvr_steps dw q obj vmm_idxs rhs ddp qdp bc k = Inr st"
    and d: "depthwise_inj_idx st = length (filter is_depthwise (take k ?ps))"
    and qq: "quantization_inj_idx st = length (filter is_quantization (take k ?ps))"
    and off: "post_ops_data_offset st =
         sum_list (map (entry_memoryStep dw q isa qsp) (filter uses_aux_data (take k ?ps)))"
    by auto
  have mem: "?ps ! k \<in> set ?ps" using lt by simp
  note ft = filter_take_Suc [OF lt]
  have em: "is_depthwise (?ps ! k) \<Longrightarrow> entry_memoryStep dw q isa qsp (?ps ! k) =
        dw (jit_uni_depthwise_injector_f32 isa (?ps ! k))"
      "\<not> is_depthwise (?ps ! k) \<Longrightarrow> entry_memoryStep dw q isa qsp (?ps ! k) =
        q (jit_uni_quantization_injector_f32 isa (?ps ! k) qsp)"
    by (simp_all add: entry_memoryStep_def)
  have dqk: "uses_aux_data (?ps ! k) = (is_depthwise (?ps ! k) \<or> is_quantization (?ps ! k))"
    by (simp add: uses_aux_data_def)
  consider (elt) "is_eltwise (?ps ! k)" | (bin) "is_like_binary (?ps ! k)"
    | (dw) "is_depthwise (?ps ! k)" | (qu) "is_quantization (?ps ! k)"
    | (other) "\<not> is_eltwise (?ps ! k)" "\<not> is_like_binary (?ps ! k)"
        "\<not> is_depthwise (?ps ! k)" "\<not> is_quantization (?ps ! k)"
    by blast
  then show ?case
  proof cases
    case elt
    from cvr_step_eltwise [OF wf lt elt, of dw q vmm_idxs rhs ddp qdp bc st]
    obtain ei where "cvr_body dw q obj vmm_idxs rhs ddp qdp bc st k =
      Inr (st \<lparr> calls := calls st @ [Eltwise_compute_vector_range ei vmm_idxs] \<rparr>)" by blast
    then show ?thesis
      using elt entry_kinds_excl(1) [OF elt] by (simp add: st d qq off ft dqk)
  next
    case bin
    from cvr_step_binary [OF wf lt bin, of dw q vmm_idxs rhs ddp qdp bc st]
    obtain bi where "cvr_body dw q obj vmm_idxs rhs ddp qdp bc st k =
      Inr (st \<lparr> calls := calls st
               @ [Binary_compute_vector_range bi vmm_idxs (rhs_arg_idx st) (?ps ! k) rhs],
             rhs_arg_idx := rhs_arg_idx st + 1 \<rparr>)" by blast
    then show ?thesis
      using bin entry_kinds_excl(2) [OF bin] by (simp add: st d qq off ft dqk)
  next
    case dw
    from cov dw mem have c: "list_all (\<lambda>v. ddp_vmm_idx_off ddp v \<noteq> None) vmm_idxs"
      by (auto simp: covered_def list_ex_iff)
    from cvr_step_depthwise [OF wf lt dw d c, of dw q rhs qdp bc]
    obtain st' where "cvr_body dw q obj vmm_idxs rhs ddp qdp bc st k = Inr st'"
      and "depthwise_inj_idx st' = depthwise_inj_idx st + 1"
      and "quantization_inj_idx st' = quantization_inj_idx st"
      and "post_ops_data_offset st' = post_ops_data_offset st
          + dw (jit_uni_depthwise_injector_f32 isa (?ps ! k))"
      by blast
    then show ?thesis
      using dw entry_kinds_excl(3) [OF dw]
      by (simp add: st d qq off ft dqk em)
  next
    case qu
    from cov qu mem have c: "list_all (\<lambda>v. qdp_vmm_idx_off qdp v \<noteq> None) vmm_idxs"
      by (auto simp: covered_def list_ex_iff)
    then obtain offs where offs: "at_all (qdp_vmm_idx_off qdp) vmm_idxs = Inr offs"
      using at_all_total by blast
    have nd: "\<not> is_depthwise (?ps ! k)"
      using qu entry_kinds_excl(3) by blast
    note b = cvr_step_quantization [OF wf lt qu qq offs, of dw q rhs ddp bc]
    show ?thesis
      using qu nd by (simp add: st b d qq off ft dqk em)
  next
    case other
    from cvr_step_lambda [OF other, of dw q vmm_idxs rhs ddp qdp bc st]
    show ?thesis
      using other by (auto simp: st d qq off ft dqk split: option.splits)
  qed
qed

lemma at_all_keys: "at_all m ks = Inr kvs \<Longrightarrow> map fst kvs = ks"
proof (induction ks arbitrary: kvs)
  case Nil
  then show ?case by simp
next
  case (Cons k ks)
  from Cons.prems obtain v kvs' where "map_at m k = Inr v" and r: "at_all m ks = Inr kvs'"
    and kvs: "kvs = (k, v) # kvs'"
    by (auto split: sum.splits)
  from Cons.IH [OF r] kvs show ?case by simp
qed

lemma multimap_insert_not_Nil: "multimap_insert p m \<noteq> []"
  by (cases m) simp_all

lemma foldl_multimap_insert_not_Nil:
  "m \<noteq> [] \<Longrightarrow> foldl (\<lambda>m (vmm_idx, off). multimap_insert (off, vmm_idx) m) m offs \<noteq> []"
proof (induction offs arbitrary: m)
  case Nil
  then show ?case by simp
next
  case (Cons p offs)
  obtain v off where p: "p = (v, off)" by (cases p)
  show ?case
    unfolding p foldl_Cons prod.case
    by (rule Cons.IH) (rule multimap_insert_not_Nil)
qed

lemma group_by_offset_not_Nil: "m \<noteq> [] \<Longrightarrow> group_by_offset m \<noteq> []"
  by (cases m) simp_all

lemma vecOfVmmIdxsSets_not_Nil: "offs \<noteq> [] \<Longrightarrow> vecOfVmmIdxsSets offs \<noteq> []"
proof (cases offs)
  case Nil
  assume "offs \<noteq> []"
  with Nil show ?thesis by simp
next
  case (Cons p ps)
  obtain v off where p: "p = (v, off)" by (cases p)
  have "foldl (\<lambda>m (vmm_idx, off). multimap_insert (off, vmm_idx) m) [] (p # ps) \<noteq> []"
    unfolding p foldl_Cons prod.case
    by (rule foldl_multimap_insert_not_Nil) (rule multimap_insert_not_Nil)
  then show ?thesis
    unfolding vecOfVmmIdxsSets_def Cons by (rule group_by_offset_not_Nil)
qed

lemma ctor_well_formed:
  assumes "new_jit_uni_postops_injector_t ndebug isup isa ps bsp esp qsp lam = Inr obj"
  shows "well_formed obj isa qsp" and "m_post_ops obj = ps" and "inj_isa obj = isa"
    and "m_lambda_jit_injectors obj = lam" and "post_ops_pointers_count obj = 0"
proof -
  from assms have obj: "obj = \<lparr> inj_isa = isa, m_post_ops = ps,
         m_alg_to_eltwise_injector = elt_pairs isa esp ps (length ps),
         m_binary_injector =
           (if list_ex is_like_binary ps then Some (jit_uni_binary_injector_t isa bsp) else None),
         depthwise_injectors = map (jit_uni_depthwise_injector_f32 isa) (filter is_depthwise ps),
         quantization_injectors =
           map (\<lambda>e. jit_uni_quantization_injector_f32 isa e qsp) (filter is_quantization ps),
         m_lambda_jit_injectors = lam, post_ops_pointers_count = 0 \<rparr>"
    unfolding new_injector_result by (simp split: if_splits)
  show "well_formed obj isa qsp"
    by (simp add: obj well_formed_def elt_pairs_keys)
  show "m_post_ops obj = ps" "inj_isa obj = isa" "m_lambda_jit_injectors obj = lam"
    "post_ops_pointers_count obj = 0"
    by (simp_all add: obj)
qed

text \<open>
  C2. During one call of \<^verbatim>\<open>compute_vector_range\<close> on an injector built by the
  constructor, with offsets supplied for the vector registers of the call, the running
  auxiliary-data offset \<^verbatim>\<open>post_ops_data_offset\<close> starts at 0, and after the prefix of
  length \<open>k\<close> of the chain, for every \<open>k\<close> up to the length of the chain, the prefix
  has been processed and the offset is the sum (in \<^verbatim>\<open>size_t\<close>) of \<^verbatim>\<open>memoryStep()\<close> of the
  sub-generators of exactly the depthwise and quantization entries of the prefix, in
  chain order; entries of other kinds add nothing.
\<close>

theorem aux_offset_is_sum_of_memory_steps:
  assumes "new_jit_uni_postops_injector_t ndebug isup isa ps bsp esp qsp lam = Inr obj"
    and "covered ps vmm_idxs ddp qdp"
    and "k \<le> length ps"
  shows "post_ops_data_offset cvr_init = 0
   \<and> (\<exists>st. cvr_steps dw q obj vmm_idxs rhs ddp qdp bc k = Inr st
        \<and> post_ops_data_offset st =
            sum_list (map (entry_memoryStep dw q isa qsp)
              (filter (\<lambda>e. is_depthwise e \<or> is_quantization e) (take k ps))))"
proof -
  note c = ctor_well_formed [OF assms(1)]
  have dq: "uses_aux_data = (\<lambda>e. is_depthwise e \<or> is_quantization e)"
    by (simp add: uses_aux_data_def fun_eq_iff)
  from cvr_steps_inv [OF c(1), of vmm_idxs ddp qdp k dw q rhs bc] assms(2,3)
  show ?thesis
    unfolding c(2) dq by (auto simp: cvr_init_def)
qed

theorem aux_offset_is_sum_of_memory_steps_witness:
  "\<exists>obj st.
     new_jit_uni_postops_injector_t True (\<lambda>a b. a = b) avx2
       [eltwise_e (alg_kind_other 0) (F_fin 0) (F_fin 0), depthwise_e depthwise_scale_shift,
        sum_e (F_fin 1) 0, quantization_e quantization_quantize, binary_e (alg_kind_other 1) 0]
       \<lparr> bsp_param1 = 0, rhs_arg_static_params = \<lparr> rhs_tail_size = 0, rhs_tail_opmask = 1 \<rparr> \<rparr>
       \<lparr> esp_save_state = True, esp_p_table = 0, esp_k_mask = 1, esp_is_fwd = True,
         esp_use_dst = False, esp_preserve_vmm = True, esp_preserve_p_table = True \<rparr>
       \<lparr> qsp_vmm_d_weights_idx = 0, qsp_vmm_d_bias_idx = 0, qsp_reg_d_weights = 0, qsp_reg_d_bias = 0 \<rparr>
       Map.empty = Inr obj
     \<and> cvr_steps (\<lambda>d. 8) (\<lambda>q. 8) obj [1, 2] 0
         \<lparr> ddp_vmm_d_weights_idx = 14, ddp_vmm_d_bias_idx = 15, ddp_reg_d_weights = 14,
           ddp_reg_d_bias = 15, ddp_reg_init_off = 9, ddp_reg_init_off_addr = 0,
           ddp_vmm_idx_off = [1 \<mapsto> 0, 2 \<mapsto> 32], ddp_useAddr = False,
           ddp_reg_post_ops_data = 0, ddp_base_post_ops_data_offset = 0 \<rparr>
         \<lparr> qdp_reg_oc_off = 9, qdp_reg_oc_off_addr = 0,
           qdp_vmm_idx_off = [1 \<mapsto> 0, 2 \<mapsto> 32], qdp_dst_dt = dnnl_u8, qdp_useAddr = False,
           qdp_reg_post_ops_data = 0, qdp_base_post_ops_data_offset = 0 \<rparr>
         False 5 = Inr st
     \<and> post_ops_data_offset st = 16"
proof -
  let ?ps = "[eltwise_e (alg_kind_other 0) (F_fin 0) (F_fin 0), depthwise_e depthwise_scale_shift,
        sum_e (F_fin 1) 0, quantization_e quantization_quantize, binary_e (alg_kind_other 1) 0]"
  let ?bsp = "\<lparr> bsp_param1 = 0, rhs_arg_static_params = \<lparr> rhs_tail_size = 0, rhs_tail_opmask = 1 \<rparr> \<rparr>"
  let ?esp = "\<lparr> esp_save_state = True, esp_p_table = 0, esp_k_mask = 1, esp_is_fwd = True,
         esp_use_dst = False, esp_preserve_vmm = True, esp_preserve_p_table = True \<rparr>"
  let ?qsp = "\<lparr> qsp_vmm_d_weights_idx = 0, qsp_vmm_d_bias_idx = 0, qsp_reg_d_weights = 0, qsp_reg_d_bias = 0 \<rparr>"
  let ?ddp = "\<lparr> ddp_vmm_d_weights_idx = 14, ddp_vmm_d_bias_idx = 15, ddp_reg_d_weights = 14,
           ddp_reg_d_bias = 15, ddp_reg_init_off = 9, ddp_reg_init_off_addr = 0,
           ddp_vmm_idx_off = [1 \<mapsto> 0, 2 \<mapsto> 32], ddp_useAddr = False,
           ddp_reg_post_ops_data = 0, ddp_base_post_ops_data_offset = 0 \<rparr>"
  let ?qdp = "\<lparr> qdp_reg_oc_off = 9, qdp_reg_oc_off_addr = 0,
           qdp_vmm_idx_off = [1 \<mapsto> 0, 2 \<mapsto> 32], qdp_dst_dt = dnnl_u8, qdp_useAddr = False,
           qdp_reg_post_ops_data = 0, qdp_base_post_ops_data_offset = 0 \<rparr>"
  obtain obj where obj: "new_jit_uni_postops_injector_t True (\<lambda>a b. a = b) avx2 ?ps ?bsp ?esp ?qsp
      Map.empty = Inr obj"
    by (simp add: new_injector_result)
  have cov: "covered ?ps [1, 2] ?ddp ?qdp"
    by (simp add: covered_def)
  have k: "5 \<le> length ?ps" by simp
  have sum: "sum_list (map (entry_memoryStep (\<lambda>d. 8) (\<lambda>q. 8) avx2 ?qsp)
      (filter (\<lambda>e. is_depthwise e \<or> is_quantization e) (take 5 ?ps))) = 16"
    by (simp add: entry_memoryStep_def is_kind_defs)
  from aux_offset_is_sum_of_memory_steps [OF obj cov k, of "\<lambda>d. 8" "\<lambda>q. 8" 0 False]
  obtain st where st: "cvr_steps (\<lambda>d. 8) (\<lambda>q. 8) obj [1, 2] 0 ?ddp ?qdp False 5 = Inr st"
    and off: "post_ops_data_offset st = sum_list (map (entry_memoryStep (\<lambda>d. 8) (\<lambda>q. 8) avx2 ?qsp)
      (filter (\<lambda>e. is_depthwise e \<or> is_quantization e) (take 5 ?ps)))"
    by blast
  have r: "post_ops_data_offset st = 16"
    unfolding off by (rule sum)
  show ?thesis
    by (rule exI [of _ obj], rule exI [of _ st]) (intro conjI obj st r)
qed

text \<open>
  C1. For a quantization entry at position \<open>i\<close> of a chain of length \<open>n\<close> processed
  by \<^verbatim>\<open>compute_vector_range\<close>, the calls made for this entry pass \<^verbatim>\<open>do_rounding\<close> to
  every \<^verbatim>\<open>compute_input_scale_shift\<close> (the step before the output scale and shift),
  and its value is true if and only if the entry asks for dequantization, or
  \<^verbatim>\<open>dst_dt\<close> is \<^verbatim>\<open>f32\<close>, or \<open>i\<close> is not \<open>n - 1\<close>. In particular an entry that is not the
  last always rounds. The calls for the entry are the crop step, then the input scale
  and shift step with this \<^verbatim>\<open>do_rounding\<close>, then the output scale and shift step, each
  once per group of vector registers, and there is a group when the call has a vector
  register.
\<close>

theorem quantization_rounding_policy:
  assumes "new_jit_uni_postops_injector_t ndebug isup isa ps bsp esp qsp lam = Inr obj"
    and "covered ps vmm_idxs ddp qdp"
    and "i < length ps"
    and "is_quantization (ps ! i)"
  shows "\<exists>st st' new sets base oc.
     cvr_steps dw q obj vmm_idxs rhs ddp qdp bc i = Inr st
     \<and> cvr_steps dw q obj vmm_idxs rhs ddp qdp bc (Suc i) = Inr st'
     \<and> calls st' = calls st @ new
     \<and> new = quantization_calls (jit_uni_quantization_injector_f32 isa (ps ! i) qsp) base oc sets
         (quantization_alg (ps ! i) = quantization_quantize_dequantize
          \<or> qdp_dst_dt qdp = dnnl_f32 \<or> i \<noteq> length ps - 1) bc
     \<and> rounding_flags new =
         replicate (length sets)
           (quantization_alg (ps ! i) = quantization_quantize_dequantize
            \<or> qdp_dst_dt qdp = dnnl_f32 \<or> i \<noteq> length ps - 1)
     \<and> (i \<noteq> length ps - 1 \<longrightarrow> rounding_flags new = replicate (length sets) True)
     \<and> (vmm_idxs \<noteq> [] \<longrightarrow> sets \<noteq> [])"
proof -
  note c = ctor_well_formed [OF assms(1)]
  from assms(3) have le: "i \<le> length (m_post_ops obj)" and lt: "i < length (m_post_ops obj)"
    by (simp_all add: c(2))
  from cvr_steps_inv [OF c(1) _ le, of vmm_idxs ddp qdp dw q rhs bc] assms(2)
  obtain st where st: "cvr_steps dw q obj vmm_idxs rhs ddp qdp bc i = Inr st"
    and qq: "quantization_inj_idx st = length (filter is_quantization (take i (m_post_ops obj)))"
    by (auto simp: c(2))
  have k: "is_quantization (m_post_ops obj ! i)"
    using assms(4) by (simp add: c(2))
  have "ps ! i \<in> set ps" using assms(3) by simp
  with assms(2,4) have cov: "list_all (\<lambda>v. qdp_vmm_idx_off qdp v \<noteq> None) vmm_idxs"
    by (auto simp: covered_def list_ex_iff)
  then obtain offs where offs: "at_all (qdp_vmm_idx_off qdp) vmm_idxs = Inr offs"
    using at_all_total by blast
  let ?r = "quantization_alg (ps ! i) = quantization_quantize_dequantize
            \<or> qdp_dst_dt qdp = dnnl_f32 \<or> i \<noteq> length ps - 1"
  have ar: "(int i \<noteq> int (length ps) - 1) = (i \<noteq> length ps - 1)"
    using assms(3) by (cases "length ps") auto
  note b = cvr_step_quantization [OF c(1) lt k qq offs, of dw q rhs ddp bc]
  define new where "new = quantization_calls (jit_uni_quantization_injector_f32 isa (ps ! i) qsp)
      (RegExp (qdp_reg_post_ops_data qdp)
         (qdp_base_post_ops_data_offset qdp + post_ops_data_offset st))
      (if qdp_useAddr qdp then Addr (qdp_reg_oc_off_addr qdp) else Reg (qdp_reg_oc_off qdp))
      (vecOfVmmIdxsSets offs) ?r bc"
  define st' where "st' = st \<lparr> calls := calls st @ new,
             post_ops_data_offset := post_ops_data_offset st
               + q (jit_uni_quantization_injector_f32 isa (ps ! i) qsp),
             rhs_arg_idx := rhs_arg_idx st + 1,
             quantization_inj_idx := quantization_inj_idx st + 1 \<rparr>"
  have s: "cvr_steps dw q obj vmm_idxs rhs ddp qdp bc (Suc i) = Inr st'"
    by (simp add: st b c(2) ar st'_def new_def)
  have new: "calls st' = calls st @ new"
    by (simp add: st'_def)
  have fl: "rounding_flags new = replicate (length (vecOfVmmIdxsSets offs)) ?r"
    unfolding new_def by (rule rounding_flags_quantization_calls)
  have ne: "vmm_idxs \<noteq> [] \<longrightarrow> vecOfVmmIdxsSets offs \<noteq> []"
    using at_all_keys [OF offs] vecOfVmmIdxsSets_not_Nil [of offs] by auto
  have last: "i \<noteq> length ps - 1 \<longrightarrow> rounding_flags new = replicate (length (vecOfVmmIdxsSets offs)) True"
    using fl by simp
  show ?thesis
    by (rule exI [of _ st], rule exI [of _ st'], rule exI [of _ new],
        rule exI [of _ "vecOfVmmIdxsSets offs"],
        rule exI [of _ "RegExp (qdp_reg_post_ops_data qdp)
          (qdp_base_post_ops_data_offset qdp + post_ops_data_offset st)"],
        rule exI [of _ "if qdp_useAddr qdp then Addr (qdp_reg_oc_off_addr qdp)
          else Reg (qdp_reg_oc_off qdp)"])
       (intro conjI st s new new_def fl last ne)
qed

theorem quantization_rounding_policy_witness:
  "\<exists>obj st st' new sets.
     new_jit_uni_postops_injector_t True (\<lambda>a b. a = b) avx2
       [quantization_e quantization_quantize, eltwise_e (alg_kind_other 0) (F_fin 0) (F_fin 0)]
       \<lparr> bsp_param1 = 0, rhs_arg_static_params = \<lparr> rhs_tail_size = 0, rhs_tail_opmask = 1 \<rparr> \<rparr>
       \<lparr> esp_save_state = True, esp_p_table = 0, esp_k_mask = 1, esp_is_fwd = True,
         esp_use_dst = False, esp_preserve_vmm = True, esp_preserve_p_table = True \<rparr>
       \<lparr> qsp_vmm_d_weights_idx = 0, qsp_vmm_d_bias_idx = 0, qsp_reg_d_weights = 0, qsp_reg_d_bias = 0 \<rparr>
       Map.empty = Inr obj
     \<and> cvr_steps (\<lambda>d. 8) (\<lambda>q. 8) obj [1, 2] 0
         \<lparr> ddp_vmm_d_weights_idx = 14, ddp_vmm_d_bias_idx = 15, ddp_reg_d_weights = 14,
           ddp_reg_d_bias = 15, ddp_reg_init_off = 9, ddp_reg_init_off_addr = 0,
           ddp_vmm_idx_off = Map.empty, ddp_useAddr = False,
           ddp_reg_post_ops_data = 0, ddp_base_post_ops_data_offset = 0 \<rparr>
         \<lparr> qdp_reg_oc_off = 9, qdp_reg_oc_off_addr = 0,
           qdp_vmm_idx_off = [1 \<mapsto> 0, 2 \<mapsto> 32], qdp_dst_dt = dnnl_u8, qdp_useAddr = False,
           qdp_reg_post_ops_data = 0, qdp_base_post_ops_data_offset = 0 \<rparr>
         False 0 = Inr st
     \<and> cvr_steps (\<lambda>d. 8) (\<lambda>q. 8) obj [1, 2] 0
         \<lparr> ddp_vmm_d_weights_idx = 14, ddp_vmm_d_bias_idx = 15, ddp_reg_d_weights = 14,
           ddp_reg_d_bias = 15, ddp_reg_init_off = 9, ddp_reg_init_off_addr = 0,
           ddp_vmm_idx_off = Map.empty, ddp_useAddr = False,
           ddp_reg_post_ops_data = 0, ddp_base_post_ops_data_offset = 0 \<rparr>
         \<lparr> qdp_reg_oc_off = 9, qdp_reg_oc_off_addr = 0,
           qdp_vmm_idx_off = [1 \<mapsto> 0, 2 \<mapsto> 32], qdp_dst_dt = dnnl_u8, qdp_useAddr = False,
           qdp_reg_post_ops_data = 0, qdp_base_post_ops_data_offset = 0 \<rparr>
         False (Suc 0) = Inr st'
     \<and> calls st' = calls st @ new
     \<and> rounding_flags new = replicate (length sets) True
     \<and> sets \<noteq> ([] :: (int \<times> vmm_index_set_t) list)"
proof -
  let ?ps = "[quantization_e quantization_quantize, eltwise_e (alg_kind_other 0) (F_fin 0) (F_fin 0)]"
  let ?bsp = "\<lparr> bsp_param1 = 0, rhs_arg_static_params = \<lparr> rhs_tail_size = 0, rhs_tail_opmask = 1 \<rparr> \<rparr>"
  let ?esp = "\<lparr> esp_save_state = True, esp_p_table = 0, esp_k_mask = 1, esp_is_fwd = True,
         esp_use_dst = False, esp_preserve_vmm = True, esp_preserve_p_table = True \<rparr>"
  let ?qsp = "\<lparr> qsp_vmm_d_weights_idx = 0, qsp_vmm_d_bias_idx = 0, qsp_reg_d_weights = 0, qsp_reg_d_bias = 0 \<rparr>"
  let ?ddp = "\<lparr> ddp_vmm_d_weights_idx = 14, ddp_vmm_d_bias_idx = 15, ddp_reg_d_weights = 14,
           ddp_reg_d_bias = 15, ddp_reg_init_off = 9, ddp_reg_init_off_addr = 0,
           ddp_vmm_idx_off = Map.empty, ddp_useAddr = False,
           ddp_reg_post_ops_data = 0, ddp_base_post_ops_data_offset = 0 \<rparr>"
  let ?qdp = "\<lparr> qdp_reg_oc_off = 9, qdp_reg_oc_off_addr = 0,
           qdp_vmm_idx_off = [1 \<mapsto> 0, 2 \<mapsto> 32], qdp_dst_dt = dnnl_u8, qdp_useAddr = False,
           qdp_reg_post_ops_data = 0, qdp_base_post_ops_data_offset = 0 \<rparr>"
  obtain obj where obj: "new_jit_uni_postops_injector_t True (\<lambda>a b. a = b) avx2 ?ps ?bsp ?esp ?qsp
      Map.empty = Inr obj"
    by (simp add: new_injector_result)
  have cov: "covered ?ps [1, 2] ?ddp ?qdp"
    by (simp add: covered_def is_kind_defs)
  have i: "0 < length ?ps" by simp
  have k: "is_quantization (?ps ! 0)" by (simp add: is_kind_defs)
  from quantization_rounding_policy [OF obj cov i k, of "\<lambda>d. 8" "\<lambda>q. 8" 0 False]
  obtain st st' new sets base oc
    where st: "cvr_steps (\<lambda>d. 8) (\<lambda>q. 8) obj [1, 2] 0 ?ddp ?qdp False 0 = Inr st"
      and st': "cvr_steps (\<lambda>d. 8) (\<lambda>q. 8) obj [1, 2] 0 ?ddp ?qdp False (Suc 0) = Inr st'"
      and new: "calls st' = calls st @ new"
      and "new = quantization_calls (jit_uni_quantization_injector_f32 avx2 (?ps ! 0) ?qsp) base oc sets
         (quantization_alg (?ps ! 0) = quantization_quantize_dequantize
          \<or> qdp_dst_dt ?qdp = dnnl_f32 \<or> 0 \<noteq> length ?ps - 1) False"
      and "rounding_flags new =
         replicate (length sets)
           (quantization_alg (?ps ! 0) = quantization_quantize_dequantize
            \<or> qdp_dst_dt ?qdp = dnnl_f32 \<or> 0 \<noteq> length ?ps - 1)"
      and last: "0 \<noteq> length ?ps - 1 \<longrightarrow> rounding_flags new = replicate (length sets) True"
      and ne: "[1, 2] \<noteq> ([] :: nat list) \<longrightarrow> sets \<noteq> []"
    by (elim exE conjE)
  from last have fl: "rounding_flags new = replicate (length sets) True" by simp
  from ne have n: "sets \<noteq> []" by simp
  show ?thesis
    by (rule exI [of _ obj], rule exI [of _ st], rule exI [of _ st'], rule exI [of _ new],
        rule exI [of _ sets]) (intro conjI obj st st' new fl n)
qed



section \<open>Properties of the epilogue kernel\<close>

lemma full_loop_once:
  "reg_len st - int (vlen isa) < int (vlen isa) \<Longrightarrow>
   full_loop isa do_bias st =
     (compute isa do_bias False st)
       \<lparr> reg_len := reg_len st - int (vlen isa), reg_dst := reg_dst st + vlen isa \<rparr>"
  by (subst full_loop.simps) (simp add: Let_def compute_def)

lemma generate_avx2_11:
  "generate avx2 do_bias 11 =
   Inr \<lparr> reg_len = 3, reg_dst = 8,
         lane_mask = [True, True, True, False, False, False, False, False],
         events =
           [Load 0 [True, True, True, True, True, True, True, True]]
           @ (if do_bias then [Bias_add] else [])
           @ [Post_ops False, Store 0 [True, True, True, True, True, True, True, True],
              Load 8 [True, True, True, False, False, False, False, False]]
           @ (if do_bias then [Bias_add] else [])
           @ [Post_ops True, Store 8 [True, True, True, False, False, False, False, False]] \<rparr>"
  by (simp add: generate_def full_loop_once tail_def compute_def vlen_def Let_def
      eval_nat_numeral)

text \<open>
  C7. For a vector width of 8 floats (the avx2 kernel) and an output length of 11, one
  run of the kernel makes exactly one full-width compute iteration with
  \<^verbatim>\<open>apply_mask = false\<close> at element 0 and exactly one compute iteration with
  \<^verbatim>\<open>apply_mask = true\<close> at element 8 whose mask has 3 active lanes; the stores write the
  elements 0 to 10 and no element at or beyond index 11.
\<close>

theorem tail_of_length_11_at_width_8:
  "\<exists>st. generate avx2 do_bias 11 = Inr st
     \<and> events st =
         [Load 0 [True, True, True, True, True, True, True, True]]
         @ (if do_bias then [Bias_add] else [])
         @ [Post_ops False, Store 0 [True, True, True, True, True, True, True, True],
            Load 8 [True, True, True, False, False, False, False, False]]
         @ (if do_bias then [Bias_add] else [])
         @ [Post_ops True, Store 8 [True, True, True, False, False, False, False, False]]
     \<and> length (filter (\<lambda>e. e = Post_ops False) (events st)) = 1
     \<and> length (filter (\<lambda>e. e = Post_ops True) (events st)) = 1
     \<and> length (filter (\<lambda>b. b) (lane_mask st)) = 3
     \<and> written (events st) = [0, 1, 2, 3, 4, 5, 6, 7, 8, 9, 10]
     \<and> filter (\<lambda>k. 11 \<le> k) (written (events st)) = []"
  unfolding generate_avx2_11
  by (cases do_bias) (simp_all add: eval_nat_numeral)

text \<open>
  C6. The tail reached with zero remaining elements, on the three tiers: after one full
  iteration of a length equal to the vector width, the avx512_core kernel leaves at
  \<^verbatim>\<open>jz(loop_end)\<close> and runs nothing more, while the avx2 and the sse41 kernel run
  \<^verbatim>\<open>compute(true)\<close>: load (on sse41 of the full vector after the end), post-ops and a
  store under a mask without an active lane.
\<close>

theorem zero_tail_per_tier:
  "generate avx2 do_bias 8 =
     Inr \<lparr> reg_len = 0, reg_dst = 8,
           lane_mask = [False, False, False, False, False, False, False, False],
           events =
             [Load 0 [True, True, True, True, True, True, True, True]]
             @ (if do_bias then [Bias_add] else [])
             @ [Post_ops False, Store 0 [True, True, True, True, True, True, True, True],
                Load 8 [False, False, False, False, False, False, False, False]]
             @ (if do_bias then [Bias_add] else [])
             @ [Post_ops True,
                Store 8 [False, False, False, False, False, False, False, False]] \<rparr>
   \<and> generate sse41 do_bias 4 =
     Inr \<lparr> reg_len = 0, reg_dst = 4, lane_mask = [False, False, False, False],
           events =
             [Load 0 [True, True, True, True]]
             @ (if do_bias then [Bias_add] else [])
             @ [Post_ops False, Store 0 [True, True, True, True],
                Load 4 [True, True, True, True]]
             @ (if do_bias then [Bias_add] else [])
             @ [Post_ops True, Store 4 [False, False, False, False]] \<rparr>
   \<and> generate avx512_core do_bias 16 =
     Inr \<lparr> reg_len = 0, reg_dst = 16, lane_mask = [],
           events =
             [Load 0 [True, True, True, True, True, True, True, True,
                      True, True, True, True, True, True, True, True]]
             @ (if do_bias then [Bias_add] else [])
             @ [Post_ops False,
                Store 0 [True, True, True, True, True, True, True, True,
                         True, True, True, True, True, True, True, True]] \<rparr>"
  by (simp add: generate_def full_loop_once tail_def compute_def vlen_def Let_def
      eval_nat_numeral)

section \<open>Properties of the stack reservation\<close>

lemma run_append: "run (xs @ ys) m = run ys (run xs m)"
  by (simp add: run_def)

lemma run_Nil: "run [] m = m"
  by (simp add: run_def)

lemma run_Cons: "run (i # is) m = run is (exec i m)"
  by (simp add: run_def)

lemma count_pointers_eq:
  "count_pointers c ps = c + length (filter (\<lambda>e. is_depthwise e \<or> is_quantization e) ps)"
  unfolding count_pointers_def
  by (induction ps arbitrary: c) simp_all

lemma copy_code_Suc:
  "copy_code a0 a1 (Suc k) = copy_code a0 a1 k
     @ [Mov_load a1 a0 (ptr_disp k),
        Mov_store rsp (ptr_disp k) a1]"
  by (simp add: copy_code_def)

lemma slot_inj:
  assumes "i < c" "k < c" "c < 2 ^ 61" "i \<noteq> k"
  shows "ptr_disp i \<noteq> ptr_disp k"
proof
  assume "ptr_disp i = ptr_disp k"
  then have "(word_of_nat (i * 8) :: 64 word) = word_of_nat (k * 8)"
    by (simp only: ptr_disp_def sizeof_float_ptr_def)
  then have eq: "take_bit 64 (i * 8) = take_bit 64 (k * 8)"
    by (simp only: word_of_nat_eq_iff len_num1 len_bit0 mult_1_right) simp
  have "i * 8 < 2 ^ 64" "k * 8 < 2 ^ 64"
    using assms by simp_all
  then have "take_bit 64 (i * 8) = i * 8" "take_bit 64 (k * 8) = k * 8"
    by (simp_all add: take_bit_nat_eq_self)
  with eq assms(4) show False by simp
qed

lemma run_copy_code:
  assumes regs: "a0 \<noteq> rsp" "a1 \<noteq> rsp" "a0 \<noteq> a1"
    and c: "c < 2 ^ 61"
    and disj: "\<forall>i < c. \<forall>j < c. regs m rsp + ptr_disp i
                 \<noteq> regs m a0 + ptr_disp j"
    and k: "k \<le> c"
  shows "regs (run (copy_code a0 a1 k) m) rsp = regs m rsp
     \<and> regs (run (copy_code a0 a1 k) m) a0 = regs m a0
     \<and> (\<forall>i < k. mem (run (copy_code a0 a1 k) m) (regs m rsp + ptr_disp i) =
                 mem m (regs m a0 + ptr_disp i))
     \<and> (\<forall>a. (\<forall>i < k. a \<noteq> regs m rsp + ptr_disp i) \<longrightarrow>
              mem (run (copy_code a0 a1 k) m) a = mem m a)"
  using k
proof (induction k)
  case 0
  show ?case by (simp add: copy_code_def run_Nil)
next
  case (Suc k)
  let ?m1 = "run (copy_code a0 a1 k) m"
  from Suc have kc: "k < c" and IH: "regs ?m1 rsp = regs m rsp" "regs ?m1 a0 = regs m a0"
    "\<forall>i < k. mem ?m1 (regs m rsp + ptr_disp i) =
                 mem m (regs m a0 + ptr_disp i)"
    "\<forall>a. (\<forall>i < k. a \<noteq> regs m rsp + ptr_disp i) \<longrightarrow> mem ?m1 a = mem m a"
    by simp_all
  have src: "mem ?m1 (regs m a0 + ptr_disp k) =
      mem m (regs m a0 + ptr_disp k)"
  proof -
    have "\<forall>i < k. regs m a0 + ptr_disp k \<noteq> regs m rsp + ptr_disp i"
      using disj kc by (metis less_trans)
    with IH(4) show ?thesis by blast
  qed
  have inj: "\<forall>i < k. regs m rsp + ptr_disp i
      \<noteq> regs m rsp + ptr_disp k"
  proof (intro allI impI)
    fix i assume "i < k"
    then have "ptr_disp i \<noteq> ptr_disp k"
      using slot_inj [of i c k] kc c by simp
    then show "regs m rsp + ptr_disp i
      \<noteq> regs m rsp + ptr_disp k"
      by simp
  qed
  have run: "run (copy_code a0 a1 (Suc k)) m =
      ?m1 \<lparr> regs := (regs ?m1)(a1 := mem m (regs m a0 + ptr_disp k)),
            mem := (mem ?m1)(regs m rsp + ptr_disp k :=
                      mem m (regs m a0 + ptr_disp k)) \<rparr>"
    using regs by (simp add: copy_code_Suc run_append run_Cons run_Nil IH(1,2) src)
  show ?case
    unfolding run using regs IH inj
    by (auto simp: less_Suc_eq)
qed

lemma push_eq:
  "push_post_ops_data_on_stack obj dr off a0 a1 =
     (obj \<lparr> post_ops_pointers_count :=
          post_ops_pointers_count obj
          + length (filter (\<lambda>e. is_depthwise e \<or> is_quantization e) (m_post_ops obj)) \<rparr>,
      if post_ops_pointers_count obj
          + length (filter (\<lambda>e. is_depthwise e \<or> is_quantization e) (m_post_ops obj)) = 0
      then []
      else [Sub rsp (ptr_disp (post_ops_pointers_count obj
              + length (filter (\<lambda>e. is_depthwise e \<or> is_quantization e) (m_post_ops obj)))),
            Mov_load a0 dr (of_nat off)]
           @ copy_code a0 a1 (post_ops_pointers_count obj
              + length (filter (\<lambda>e. is_depthwise e \<or> is_quantization e) (m_post_ops obj))))"
  by (simp add: push_post_ops_data_on_stack_def Let_def count_pointers_eq copy_code_def)

lemma run_copy_code_regs:
  assumes "a1 \<noteq> r"
  shows "regs (run (copy_code a0 a1 k) m) r = regs m r"
proof (induction k)
  case 0
  show ?case by (simp add: copy_code_def run_Nil)
next
  case (Suc k)
  then show ?case
    using assms by (simp add: copy_code_Suc run_append run_Cons run_Nil)
qed

lemma ptr_disp_0: "ptr_disp 0 = 0"
  by (simp add: ptr_disp_def)

lemma run_push_code_rsp:
  assumes "a0 \<noteq> rsp" "a1 \<noteq> rsp"
  shows "regs (run ([Sub rsp d, Mov_load a0 dr off] @ copy_code a0 a1 c) m) rsp = regs m rsp - d"
  using assms by (simp add: run_append run_Cons run_Nil run_copy_code_regs)

lemma run_push_code_mem:
  assumes r: "a0 \<noteq> rsp" "a1 \<noteq> rsp" "a0 \<noteq> a1" "dr \<noteq> rsp"
    and c: "c < 2 ^ 61"
    and disj: "\<forall>i < c. \<forall>j < c. regs m rsp - d + ptr_disp i
                 \<noteq> mem m (regs m dr + off) + ptr_disp j"
    and i: "i < c"
  shows "mem (run ([Sub rsp d, Mov_load a0 dr off] @ copy_code a0 a1 c) m) (regs m rsp - d + ptr_disp i)
     = mem m (mem m (regs m dr + off) + ptr_disp i)"
proof -
  let ?m2 = "exec (Mov_load a0 dr off) (exec (Sub rsp d) m)"
  have rs: "regs ?m2 rsp = regs m rsp - d" and r0: "regs ?m2 a0 = mem m (regs m dr + off)"
    and mm: "mem ?m2 = mem m"
    using r by simp_all
  have disj2: "\<forall>i < c. \<forall>j < c. regs ?m2 rsp + ptr_disp i \<noteq> regs ?m2 a0 + ptr_disp j"
    unfolding rs r0 by (rule disj)
  from run_copy_code [OF r(1,2,3) c disj2 order_refl] i
  have "mem (run (copy_code a0 a1 c) ?m2) (regs ?m2 rsp + ptr_disp i) =
      mem ?m2 (regs ?m2 a0 + ptr_disp i)"
    by blast
  then show ?thesis
    unfolding rs r0 mm by (simp add: run_append run_Cons run_Nil)
qed

text \<open>
  C8. For a chain with \<open>N\<close> depthwise and quantization entries and the injector
  constructed for it, \<^verbatim>\<open>push_post_ops_data_on_stack\<close> sets the count of pointers to \<open>N\<close>
  and, when \<open>N\<close> is not 0, emits the subtraction of \<open>N * sizeof(float *)\<close> from the
  stack pointer, the load of the table address and, for each of the \<open>N\<close> slots, one load
  of a table pointer and one store into the slot; \<^verbatim>\<open>reset_stack_pointer\<close> emits the
  addition of the same number of bytes. Run, the first moves the stack pointer down by
  \<open>N * sizeof(float *)\<close> and fills slot \<open>i\<close> with the \<open>i\<close>-th pointer of the table (when the
  slots and the table do not overlap), the second moves the stack pointer back to where
  it was, and for \<open>N = 0\<close> neither emits an instruction. (The count is a member of the
  object and the function adds to it, see \<open>push_eq\<close>; the statement is about the object
  as the constructor leaves it.)
\<close>

theorem stack_reservation_is_released:
  assumes "new_jit_uni_postops_injector_t ndebug isup isa ps bsp esp qsp lam = Inr obj"
    and "push_post_ops_data_on_stack obj dr off a0 a1 = (obj', code)"
    and "N = length (filter (\<lambda>e. is_depthwise e \<or> is_quantization e) ps)"
  shows "post_ops_pointers_count obj' = N
   \<and> code = (if N = 0 then []
             else [Sub rsp (ptr_disp N), Mov_load a0 dr (of_nat off)] @ copy_code a0 a1 N)
   \<and> reset_stack_pointer obj' = (if N = 0 then [] else [Add rsp (ptr_disp N)])
   \<and> (a0 \<noteq> rsp \<and> a1 \<noteq> rsp \<longrightarrow> regs (run code m) rsp = regs m rsp - ptr_disp N)
   \<and> regs (run (reset_stack_pointer obj') m') rsp = regs m' rsp + ptr_disp N
   \<and> (a0 \<noteq> rsp \<and> a1 \<noteq> rsp \<longrightarrow>
        regs (run (reset_stack_pointer obj') (run code m)) rsp = regs m rsp)
   \<and> (N = 0 \<longrightarrow> run code m = m \<and> run (reset_stack_pointer obj') m' = m')
   \<and> (a0 \<noteq> rsp \<and> a1 \<noteq> rsp \<and> a0 \<noteq> a1 \<and> dr \<noteq> rsp \<and> N < 2 ^ 61
        \<and> (\<forall>i < N. \<forall>j < N. regs m rsp - ptr_disp N + ptr_disp i
               \<noteq> mem m (regs m dr + of_nat off) + ptr_disp j) \<longrightarrow>
        (\<forall>i < N. mem (run code m) (regs m rsp - ptr_disp N + ptr_disp i) =
                 mem m (mem m (regs m dr + of_nat off) + ptr_disp i)))"
proof -
  note c = ctor_well_formed [OF assms(1)]
  have cnt: "post_ops_pointers_count obj
      + length (filter (\<lambda>e. is_depthwise e \<or> is_quantization e) (m_post_ops obj)) = N"
    by (simp add: c(2) c(5) assms(3))
  from assms(2) have obj': "obj' = obj \<lparr> post_ops_pointers_count := N \<rparr>"
    and code: "code = (if N = 0 then []
             else [Sub rsp (ptr_disp N), Mov_load a0 dr (of_nat off)] @ copy_code a0 a1 N)"
    unfolding push_eq cnt by simp_all
  have reset: "reset_stack_pointer obj' = (if N = 0 then [] else [Add rsp (ptr_disp N)])"
    by (simp add: reset_stack_pointer_def obj')
  have down: "regs (run code m) rsp = regs m rsp - ptr_disp N" if "a0 \<noteq> rsp \<and> a1 \<noteq> rsp" for m
    using that run_push_code_rsp [of a0 a1 "ptr_disp N" dr "of_nat off" N m]
    by (simp add: code run_Nil ptr_disp_0)
  have up: "regs (run (reset_stack_pointer obj') m') rsp = regs m' rsp + ptr_disp N" for m'
    by (simp add: reset run_Nil run_Cons ptr_disp_0)
  have zero: "N = 0 \<longrightarrow> run code m = m \<and> run (reset_stack_pointer obj') m' = m'"
    by (simp add: code reset run_Nil)
  have copy: "\<forall>i < N. mem (run code m) (regs m rsp - ptr_disp N + ptr_disp i) =
                 mem m (mem m (regs m dr + of_nat off) + ptr_disp i)"
    if h: "a0 \<noteq> rsp \<and> a1 \<noteq> rsp \<and> a0 \<noteq> a1 \<and> dr \<noteq> rsp \<and> N < 2 ^ 61
        \<and> (\<forall>i < N. \<forall>j < N. regs m rsp - ptr_disp N + ptr_disp i
               \<noteq> mem m (regs m dr + of_nat off) + ptr_disp j)"
  proof (intro allI impI)
    fix i assume i: "i < N"
    then have "N \<noteq> 0" by simp
    then have cd: "code = [Sub rsp (ptr_disp N), Mov_load a0 dr (of_nat off)] @ copy_code a0 a1 N"
      by (simp add: code)
    from h have r: "a0 \<noteq> rsp" "a1 \<noteq> rsp" "a0 \<noteq> a1" "dr \<noteq> rsp" and n: "N < 2 ^ 61"
      and d: "\<forall>i < N. \<forall>j < N. regs m rsp - ptr_disp N + ptr_disp i
               \<noteq> mem m (regs m dr + of_nat off) + ptr_disp j"
      by blast+
    show "mem (run code m) (regs m rsp - ptr_disp N + ptr_disp i) =
                 mem m (mem m (regs m dr + of_nat off) + ptr_disp i)"
      unfolding cd by (rule run_push_code_mem [OF r n d i])
  qed
  show ?thesis
    using obj' code reset down up zero copy
    by (intro conjI impI) (simp_all only: diff_add_cancel, simp_all)
qed

theorem stack_reservation_is_released_witness:
  "\<exists>obj obj' code.
     new_jit_uni_postops_injector_t True (\<lambda>a b. a = b) avx2
       [depthwise_e depthwise_scale_shift, eltwise_e (alg_kind_other 0) (F_fin 0) (F_fin 0),
        quantization_e quantization_quantize]
       \<lparr> bsp_param1 = 0, rhs_arg_static_params = \<lparr> rhs_tail_size = 0, rhs_tail_opmask = 1 \<rparr> \<rparr>
       \<lparr> esp_save_state = True, esp_p_table = 0, esp_k_mask = 1, esp_is_fwd = True,
         esp_use_dst = False, esp_preserve_vmm = True, esp_preserve_p_table = True \<rparr>
       \<lparr> qsp_vmm_d_weights_idx = 0, qsp_vmm_d_bias_idx = 0, qsp_reg_d_weights = 0, qsp_reg_d_bias = 0 \<rparr>
       Map.empty = Inr obj
     \<and> push_post_ops_data_on_stack obj 7 16 0 1 = (obj', code)
     \<and> post_ops_pointers_count obj' = 2
     \<and> regs (run code
           \<lparr> regs = (\<lambda>r. 0)(rsp := 1000, 7 := 2000),
             mem = (\<lambda>a. 0)(2016 := 5000, 5000 := 11, 5008 := 22) \<rparr>) rsp = 984
     \<and> regs (run (reset_stack_pointer obj') (run code
           \<lparr> regs = (\<lambda>r. 0)(rsp := 1000, 7 := 2000),
             mem = (\<lambda>a. 0)(2016 := 5000, 5000 := 11, 5008 := 22) \<rparr>)) rsp = 1000
     \<and> mem (run code
           \<lparr> regs = (\<lambda>r. 0)(rsp := 1000, 7 := 2000),
             mem = (\<lambda>a. 0)(2016 := 5000, 5000 := 11, 5008 := 22) \<rparr>) 984 = 11
     \<and> mem (run code
           \<lparr> regs = (\<lambda>r. 0)(rsp := 1000, 7 := 2000),
             mem = (\<lambda>a. 0)(2016 := 5000, 5000 := 11, 5008 := 22) \<rparr>) 992 = 22"
proof -
  let ?ps = "[depthwise_e depthwise_scale_shift, eltwise_e (alg_kind_other 0) (F_fin 0) (F_fin 0),
        quantization_e quantization_quantize]"
  let ?bsp = "\<lparr> bsp_param1 = 0, rhs_arg_static_params = \<lparr> rhs_tail_size = 0, rhs_tail_opmask = 1 \<rparr> \<rparr>"
  let ?esp = "\<lparr> esp_save_state = True, esp_p_table = 0, esp_k_mask = 1, esp_is_fwd = True,
         esp_use_dst = False, esp_preserve_vmm = True, esp_preserve_p_table = True \<rparr>"
  let ?qsp = "\<lparr> qsp_vmm_d_weights_idx = 0, qsp_vmm_d_bias_idx = 0, qsp_reg_d_weights = 0, qsp_reg_d_bias = 0 \<rparr>"
  let ?m = "\<lparr> regs = (\<lambda>r. 0)(rsp := 1000, 7 := 2000),
             mem = (\<lambda>a. 0)(2016 := 5000, 5000 := 11, 5008 := 22) \<rparr>"
  obtain obj where obj: "new_jit_uni_postops_injector_t True (\<lambda>a b. a = b) avx2 ?ps ?bsp ?esp ?qsp
      Map.empty = Inr obj"
    by (simp add: new_injector_result)
  obtain obj' code where push: "push_post_ops_data_on_stack obj 7 16 0 1 = (obj', code)"
    by (cases "push_post_ops_data_on_stack obj 7 16 0 1")
  have N: "2 = length (filter (\<lambda>e. is_depthwise e \<or> is_quantization e) ?ps)"
    by (simp add: is_kind_defs)
  note t = stack_reservation_is_released [OF obj push N, of ?m ?m]
  note t1 = t [THEN conjunct1]
  note t4 = t [THEN conjunct2, THEN conjunct2, THEN conjunct2, THEN conjunct1]
  note t6 = t [THEN conjunct2, THEN conjunct2, THEN conjunct2, THEN conjunct2, THEN conjunct2,
      THEN conjunct1]
  note t8 = t [THEN conjunct2, THEN conjunct2, THEN conjunct2, THEN conjunct2, THEN conjunct2,
      THEN conjunct2, THEN conjunct2]
  have d2: "ptr_disp 2 = 16" and d0: "ptr_disp 0 = 0" and d1: "ptr_disp (Suc 0) = 8"
    by (simp_all add: ptr_disp_def sizeof_float_ptr_def)
  have r: "(0::nat) \<noteq> rsp \<and> (1::nat) \<noteq> rsp" and r7: "(7::nat) \<noteq> rsp"
    and r01: "(0::nat) \<noteq> 1"
    by (simp_all add: rsp_def)
  have rs: "regs ?m rsp = 1000" and r7v: "regs ?m 7 = 2000"
    using r7 by simp_all
  have tab: "mem ?m (regs ?m 7 + of_nat 16) = 5000"
    unfolding r7v by simp
  have c: "post_ops_pointers_count obj' = 2"
    by (rule t1)
  have "regs (run code ?m) rsp = regs ?m rsp - ptr_disp 2"
    by (rule t4 [THEN mp, OF r])
  then have down: "regs (run code ?m) rsp = 984"
    unfolding rs d2 by simp
  have "regs (run (reset_stack_pointer obj') (run code ?m)) rsp = regs ?m rsp"
    by (rule t6 [THEN mp, OF r])
  then have up: "regs (run (reset_stack_pointer obj') (run code ?m)) rsp = 1000"
    unfolding rs .
  have w: "(1000 :: 64 word) - 16 = 984" "(984 :: 64 word) + 8 = 992"
    "(984 :: 64 word) \<noteq> 5000" "(984 :: 64 word) \<noteq> 5008"
    "(992 :: 64 word) \<noteq> 5000" "(992 :: 64 word) \<noteq> 5008" "(5000 :: 64 word) + 8 = 5008"
    by simp_all
  have lt2: "i < 2 \<longleftrightarrow> i = 0 \<or> i = Suc 0" for i :: nat
    by auto
  have disj: "\<forall>i < 2. \<forall>j < 2. regs ?m rsp - ptr_disp 2 + ptr_disp i
      \<noteq> mem ?m (regs ?m 7 + of_nat 16) + ptr_disp j"
    unfolding rs tab d2 lt2 w by (simp add: d0 d1 w)
  have n: "(2::nat) < 2 ^ 61" by simp
  have h: "(0::nat) \<noteq> rsp \<and> (1::nat) \<noteq> rsp \<and> (0::nat) \<noteq> 1 \<and> (7::nat) \<noteq> rsp \<and> (2::nat) < 2 ^ 61
        \<and> (\<forall>i < 2. \<forall>j < 2. regs ?m rsp - ptr_disp 2 + ptr_disp i
               \<noteq> mem ?m (regs ?m 7 + of_nat 16) + ptr_disp j)"
    using r r01 r7 n disj by (intro conjI) simp_all
  note cp = t8 [THEN mp, OF h]
  have "mem (run code ?m) (regs ?m rsp - ptr_disp 2 + ptr_disp 0) =
      mem ?m (mem ?m (regs ?m 7 + of_nat 16) + ptr_disp 0)"
    by (rule cp [THEN spec, THEN mp]) simp
  then have s0: "mem (run code ?m) 984 = 11"
    unfolding rs tab d2 d0 w by simp
  have "mem (run code ?m) (regs ?m rsp - ptr_disp 2 + ptr_disp (Suc 0)) =
      mem ?m (mem ?m (regs ?m 7 + of_nat 16) + ptr_disp (Suc 0))"
    by (rule cp [THEN spec, THEN mp]) simp
  then have s1: "mem (run code ?m) 992 = 22"
    unfolding rs tab d2 d1 w by simp
  show ?thesis
    by (rule exI [of _ obj], rule exI [of _ obj'], rule exI [of _ code])
       (intro conjI obj push c down up s0 s1)
qed

end
